theory Spec2Isabelle
  imports Complex_Main "HOL-Library.Word"
begin

section \<open>Arrays of the numerical library\<close>

text \<open>
  The program (correciones.py) works on two-dimensional numpy arrays of dtype uint8.
  An array carries its shape besides its rows, because an array with no rows still
  has a column count. Cells of dtype uint8 are 8-bit words, so \<open>+\<close> wraps modulo 256
  as numpy's addition of uint8 arrays does.
\<close>

type_synonym uint8 = "8 word"

record 'a ndarray =
  nrows :: nat
  ncols :: nat
  datos :: "'a list list"

datatype error = ValueError | IndexError | TypeError

definition bien_formada :: "'a ndarray \<Rightarrow> bool" where
  "bien_formada a \<longleftrightarrow>
     length (datos a) = nrows a \<and> list_all (\<lambda>r. length r = ncols a) (datos a)"

definition celda :: "'a ndarray \<Rightarrow> nat \<Rightarrow> nat \<Rightarrow> 'a" where
  "celda a i j = datos a ! i ! j"

definition binaria :: "uint8 ndarray \<Rightarrow> bool" where
  "binaria a \<longleftrightarrow> list_all (list_all (\<lambda>x. x = 0 \<or> x = 1)) (datos a)"

text \<open>
  \<open>np.roll(a, shift, axis)\<close> moves the element at index \<open>i\<close> of the axis to index
  \<open>(i + shift) mod n\<close>; an axis of length 0 is left as it is. It returns a new array.
\<close>

definition roll_list :: "'a list \<Rightarrow> int \<Rightarrow> 'a list" where
  "roll_list xs s =
     (if xs = [] then [] else rotate (nat ((- s) mod int (length xs))) xs)"

definition np_roll :: "'a ndarray \<Rightarrow> int \<Rightarrow> nat \<Rightarrow> 'a ndarray" where
  "np_roll a s axis =
     (if axis = 0 then a\<lparr>datos := roll_list (datos a) s\<rparr>
      else a\<lparr>datos := map (\<lambda>r. roll_list r s) (datos a)\<rparr>)"

text \<open>Elementwise operations on arrays of one shape: \<open>+\<close>, \<open>==\<close> with a scalar,
  \<open>|\<close>, \<open>&\<close> and \<open>astype(np.uint8)\<close>.\<close>

definition np_add :: "uint8 ndarray \<Rightarrow> uint8 ndarray \<Rightarrow> uint8 ndarray" where
  "np_add a b = a\<lparr>datos := map2 (map2 (+)) (datos a) (datos b)\<rparr>"

definition np_eq :: "uint8 ndarray \<Rightarrow> uint8 \<Rightarrow> bool ndarray" where
  "np_eq a k =
     \<lparr>nrows = nrows a, ncols = ncols a, datos = map (map (\<lambda>x. x = k)) (datos a)\<rparr>"

definition np_or :: "bool ndarray \<Rightarrow> bool ndarray \<Rightarrow> bool ndarray" where
  "np_or a b = a\<lparr>datos := map2 (map2 (\<or>)) (datos a) (datos b)\<rparr>"

definition np_and :: "bool ndarray \<Rightarrow> bool ndarray \<Rightarrow> bool ndarray" where
  "np_and a b = a\<lparr>datos := map2 (map2 (\<and>)) (datos a) (datos b)\<rparr>"

definition astype_uint8 :: "bool ndarray \<Rightarrow> uint8 ndarray" where
  "astype_uint8 a =
     \<lparr>nrows = nrows a, ncols = ncols a, datos = map (map of_bool) (datos a)\<rparr>"

section \<open>The kernel\<close>

text \<open>\<open>JuegoDeLaVida.contar_vecinos\<close>: the eight shifted copies, added left to right.\<close>

definition contar_vecinos :: "uint8 ndarray \<Rightarrow> uint8 ndarray" where
  "contar_vecinos subgrilla =
     np_add (np_add (np_add (np_add (np_add (np_add (np_add
       (np_roll (np_roll subgrilla 1 0) 1 1)
       (np_roll (np_roll subgrilla 1 0) 0 1))
       (np_roll (np_roll subgrilla 1 0) (- 1) 1))
       (np_roll (np_roll subgrilla 0 0) 1 1))
       (np_roll (np_roll subgrilla 0 0) (- 1) 1))
       (np_roll (np_roll subgrilla (- 1) 0) 1 1))
       (np_roll (np_roll subgrilla (- 1) 0) 0 1))
       (np_roll (np_roll subgrilla (- 1) 0) (- 1) 1)"

section \<open>Memory, random source, clock and output\<close>

text \<open>
  Arrays are objects in memory. \<open>juego.grilla = subgrilla\<close> binds a name to an
  existing array, and \<open>np.array_split\<close> returns views (row slices) of the array it
  splits, so the model keeps a store: a list of buffers, addressed by position, and
  array values that are row ranges of a buffer. The global state of \<open>np.random\<close> is
  the sequence of draws still to come, the wall clock is the sequence of readings
  \<open>time.time()\<close> still has to return, and \<open>print\<close> appends to the output.
\<close>

record vista =
  base :: nat
  desde :: nat
  hasta :: nat

datatype linea = Procesos int nat | Tiempo real

record mundo =
  memoria :: "uint8 ndarray list"
  azar :: "nat \<Rightarrow> bool"
  reloj :: "nat \<Rightarrow> real"
  salida :: "linea list"

definition valida :: "mundo \<Rightarrow> vista \<Rightarrow> bool" where
  "valida s v \<longleftrightarrow>
     base v < length (memoria s) \<and> desde v \<le> hasta v \<and>
     hasta v \<le> nrows (memoria s ! base v) \<and> bien_formada (memoria s ! base v)"

definition leer :: "mundo \<Rightarrow> vista \<Rightarrow> uint8 ndarray" where
  "leer s v =
     (let b = memoria s ! base v
      in \<lparr>nrows = hasta v - desde v, ncols = ncols b,
          datos = take (hasta v - desde v) (drop (desde v) (datos b))\<rparr>)"

definition nuevo :: "mundo \<Rightarrow> uint8 ndarray \<Rightarrow> vista \<times> mundo" where
  "nuevo s a =
     (\<lparr>base = length (memoria s), desde = 0, hasta = nrows a\<rparr>,
      s\<lparr>memoria := memoria s @ [a]\<rparr>)"

definition time_time :: "mundo \<Rightarrow> real \<times> mundo" where
  "time_time s = (reloj s 0, s\<lparr>reloj := (\<lambda>k. reloj s (Suc k))\<rparr>)"

definition print_linea :: "mundo \<Rightarrow> linea \<Rightarrow> mundo" where
  "print_linea s l = s\<lparr>salida := salida s @ [l]\<rparr>"

text \<open>
  \<open>np.random.randint(2, size=(filas, columnas), dtype=np.uint8)\<close>: a negative
  dimension raises ValueError; otherwise a new array of that shape is filled, row by
  row, with the next draws, each 0 or 1. A dimension 0 gives an empty array.
\<close>

definition sorteo :: "(nat \<Rightarrow> bool) \<Rightarrow> nat \<Rightarrow> nat \<Rightarrow> uint8 ndarray" where
  "sorteo z R C =
     \<lparr>nrows = R, ncols = C,
      datos = map (\<lambda>i. map (\<lambda>j. of_bool (z (i * C + j))) [0..<C]) [0..<R]\<rparr>"

definition randint2 :: "mundo \<Rightarrow> int \<Rightarrow> int \<Rightarrow> error + (vista \<times> mundo)" where
  "randint2 s f c =
     (if f < 0 \<or> c < 0 then Inl ValueError
      else
        let R = nat f; C = nat c;
            (v, s1) = nuevo s (sorteo (azar s) R C)
        in Inr (v, s1\<lparr>azar := (\<lambda>k. azar s (k + R * C))\<rparr>))"

section \<open>The class JuegoDeLaVida\<close>

record JuegoDeLaVida =
  filas :: int
  columnas :: int
  pasos :: int
  procesos :: int
  grilla :: vista

definition JuegoDeLaVida_init ::
  "mundo \<Rightarrow> int \<Rightarrow> int \<Rightarrow> int \<Rightarrow> int \<Rightarrow> error + (JuegoDeLaVida \<times> mundo)" where
  "JuegoDeLaVida_init s f c ps p =
     (case randint2 s f c of
        Inl e \<Rightarrow> Inl e
      | Inr (v, s1) \<Rightarrow>
          Inr (\<lparr>filas = f, columnas = c, pasos = ps, procesos = p, grilla = v\<rparr>, s1))"

text \<open>\<open>step\<close> computes the counts from the current grid, builds the next grid as a new
  array and binds \<open>self.grilla\<close> to it.\<close>

definition step :: "mundo \<Rightarrow> JuegoDeLaVida \<Rightarrow> JuegoDeLaVida \<times> mundo" where
  "step s self =
     (let (rv, s1) = nuevo s (contar_vecinos (leer s (grilla self)));
          vecinos = leer s1 rv;
          (rg, s2) = nuevo s1 (astype_uint8
             (np_or (np_eq vecinos 3)
                    (np_and (np_eq (leer s1 (grilla self)) 1) (np_eq vecinos 2))))
      in (self\<lparr>grilla := rg\<rparr>, s2))"

fun run_bucle :: "nat \<Rightarrow> mundo \<Rightarrow> JuegoDeLaVida \<Rightarrow> JuegoDeLaVida \<times> mundo" where
  "run_bucle 0 s self = (self, s)"
| "run_bucle (Suc n) s self = (let (self1, s1) = step s self in run_bucle n s1 self1)"

definition run :: "mundo \<Rightarrow> JuegoDeLaVida \<Rightarrow> JuegoDeLaVida \<times> mundo" where
  "run s self = run_bucle (nat (pasos self)) s self"

section \<open>The worker\<close>

text \<open>The loop of \<open>worker\<close> repeats the body of \<open>step\<close> in line; \<open>range(pasos)\<close> is
  empty for a negative count.\<close>

fun worker_bucle :: "nat \<Rightarrow> mundo \<Rightarrow> JuegoDeLaVida \<Rightarrow> JuegoDeLaVida \<times> mundo" where
  "worker_bucle 0 s juego = (juego, s)"
| "worker_bucle (Suc n) s juego =
     (let (rv, s1) = nuevo s (contar_vecinos (leer s (grilla juego)));
          vecinos = leer s1 rv;
          (rg, s2) = nuevo s1 (astype_uint8
             (np_or (np_eq vecinos 3)
                    (np_and (np_eq (leer s1 (grilla juego)) 1) (np_eq vecinos 2))))
      in worker_bucle n s2 (juego\<lparr>grilla := rg\<rparr>))"

definition worker :: "mundo \<Rightarrow> vista \<Rightarrow> int \<Rightarrow> error + (vista \<times> mundo)" where
  "worker s subgrilla ps =
     (let a = leer s subgrilla
      in case JuegoDeLaVida_init s (int (nrows a)) (int (ncols a)) ps 1 of
           Inl e \<Rightarrow> Inl e
         | Inr (juego, s1) \<Rightarrow>
             (let juego1 = juego\<lparr>grilla := subgrilla\<rparr>;
                  (juego2, s2) = worker_bucle (nat ps) s1 juego1
              in Inr (grilla juego2, s2)))"

section \<open>Partition into row bands\<close>

text \<open>
  \<open>np.array_split(ary, n, axis=0)\<close> with an integer \<open>n\<close>: ValueError when \<open>n \<le> 0\<close>;
  otherwise \<open>divmod\<close> of the row count by \<open>n\<close> gives the section sizes, their
  cumulative sums the division points, and section \<open>i\<close> is the slice between
  division points \<open>i\<close> and \<open>i + 1\<close>, a view of the same buffer. A section may be
  empty; it keeps the column count (as numpy does since it stopped replacing empty
  sections by one-dimensional arrays). A slice clamps its bounds to the rows there are.
\<close>

definition section_sizes :: "nat \<Rightarrow> nat \<Rightarrow> nat list" where
  "section_sizes Ntotal Nsections =
     (let Neach_section = Ntotal div Nsections; extras = Ntotal mod Nsections
      in [0] @ replicate extras (Neach_section + 1)
             @ replicate (Nsections - extras) Neach_section)"

fun cumsum :: "nat \<Rightarrow> nat list \<Rightarrow> nat list" where
  "cumsum acc [] = []"
| "cumsum acc (x # xs) = (acc + x) # cumsum (acc + x) xs"

definition rebanada :: "vista \<Rightarrow> nat \<Rightarrow> nat \<Rightarrow> vista" where
  "rebanada v st en =
     (let n = hasta v - desde v; a = min st n; b = max a (min en n)
      in \<lparr>base = base v, desde = desde v + a, hasta = desde v + b\<rparr>)"

definition array_split :: "vista \<Rightarrow> int \<Rightarrow> error + vista list" where
  "array_split ary n =
     (let Ntotal = hasta ary - desde ary
      in if n \<le> 0 then Inl ValueError
         else
           let Nsections = nat n;
               div_points = cumsum 0 (section_sizes Ntotal Nsections)
           in Inr (map (\<lambda>i. rebanada ary (div_points ! i) (div_points ! (i + 1)))
                       [0..<Nsections]))"

section \<open>The process pool\<close>

text \<open>
  \<open>mp.Pool(processes=p)\<close> raises ValueError when \<open>p < 1\<close>. \<open>starmap\<close> sends every
  argument tuple to a child process, which works on its own copy of the array in its
  own copy of the memory, and collects the results in the order of the arguments; the
  first failure is raised in the parent. The parent's memory is not touched.
\<close>

definition tarea :: "mundo \<Rightarrow> vista \<Rightarrow> int \<Rightarrow> error + uint8 ndarray" where
  "tarea s sg ps =
     (let (r, s1) = nuevo s (leer s sg)
      in case worker s1 r ps of
           Inl e \<Rightarrow> Inl e
         | Inr (r', s2) \<Rightarrow> Inr (leer s2 r'))"

fun starmap :: "mundo \<Rightarrow> (vista \<times> int) list \<Rightarrow> error + uint8 ndarray list" where
  "starmap s [] = Inr []"
| "starmap s ((sg, ps) # resto) =
     (case tarea s sg ps of
        Inl e \<Rightarrow> Inl e
      | Inr r \<Rightarrow> (case starmap s resto of Inl e \<Rightarrow> Inl e | Inr rs \<Rightarrow> Inr (r # rs)))"

definition pool_starmap ::
  "mundo \<Rightarrow> int \<Rightarrow> (vista \<times> int) list \<Rightarrow> error + uint8 ndarray list" where
  "pool_starmap s p args = (if p < 1 then Inl ValueError else starmap s args)"

section \<open>Weak scaling\<close>

text \<open>
  \<open>int(np.sqrt(x))\<close> for a Python integer \<open>x\<close>. numpy takes an integer from
  \<open>- 2 ^ 63\<close> to \<open>2 ^ 64 - 1\<close> as an int64 or uint64 and computes the root in float64;
  any other integer becomes an object array, for which \<open>np.sqrt\<close> raises TypeError.
  The root of a negative number is NaN, which \<open>int\<close> refuses with ValueError.
  Otherwise the integer is converted to float64 (53 significant bits, round to nearest,
  ties to even), the root is the float64 nearest to the exact root, and \<open>int\<close>
  truncates it. All of this is integer arithmetic here: \<open>raiz\<close> is the integer square
  root, \<open>ancho\<close> the number of binary digits, \<open>a_float64\<close> the value of the float64
  that an integer converts to, \<open>sqrt_float64\<close> the truncated float64 root of such
  a value, and \<open>lado_float64\<close> their composition.
\<close>

fun raiz :: "nat \<Rightarrow> nat" where
  "raiz n =
     (if n < 2 then n
      else let r = 2 * raiz (n div 4) in if (r + 1) * (r + 1) \<le> n then r + 1 else r)"

declare raiz.simps [simp del]

fun ancho :: "nat \<Rightarrow> nat" where
  "ancho n = (if n = 0 then 0 else Suc (ancho (n div 2)))"

declare ancho.simps [simp del]

definition a_float64 :: "nat \<Rightarrow> nat" where
  "a_float64 x =
     (let w = ancho x
      in if w \<le> 53 then x
         else
           let d = 2 ^ (w - 53); q = x div d; r = x mod d
           in if 2 * r < d \<or> (2 * r = d \<and> even q) then q * d else (q + 1) * d)"

text \<open>
  In \<open>a_float64\<close>, an integer of more than 53 binary digits keeps its leading 53 digits
  \<open>q\<close>, rounded on the remainder \<open>r\<close>. In \<open>sqrt_float64\<close>, the root of \<open>v\<close>
  lies between \<open>2 ^ e\<close> and \<open>2 ^ (e + 1)\<close>, where float64 values are the multiples
  of \<open>2 ^ (e - 52)\<close>; \<open>m\<close> is the root scaled by \<open>2 ^ sh\<close> and rounded to the
  nearest integer (up exactly when the scaled radicand exceeds \<open>r * r + r\<close>, that is
  when the scaled root exceeds \<open>r + 1 / 2\<close>), and the quotient by \<open>2 ^ sh\<close> is the
  truncation that \<open>int\<close> performs.
\<close>

definition sqrt_float64 :: "nat \<Rightarrow> nat" where
  "sqrt_float64 v =
     (if v = 0 then 0
      else
        let e = ancho (raiz v) - 1;
            sh = 52 - e;
            n = v * 4 ^ sh;
            r = raiz n;
            m = (if r * r + r < n then r + 1 else r)
        in m div 2 ^ sh)"

definition lado_float64 :: "int \<Rightarrow> nat" where
  "lado_float64 x = sqrt_float64 (a_float64 (nat x))"

definition int_sqrt :: "int \<Rightarrow> error + nat" where
  "int_sqrt x =
     (if x < - (2 ^ 63) \<or> 2 ^ 64 \<le> x then Inl TypeError
      else if x < 0 then Inl ValueError
      else Inr (lado_float64 x))"

text \<open>One pass of the loop of \<open>escalamiento_debil\<close>, for the worker count \<open>p\<close>. The
  game object is returned with the elapsed time so that the grid it built can be
  inspected; the loop keeps the time only.\<close>

definition iteracion ::
  "mundo \<Rightarrow> int \<Rightarrow> int \<Rightarrow> int \<Rightarrow> error + (real \<times> JuegoDeLaVida \<times> mundo)" where
  "iteracion s celdas_por_proceso ps p =
     (case int_sqrt (celdas_por_proceso * p) of
        Inl e \<Rightarrow> Inl e
      | Inr lado \<Rightarrow>
     (case JuegoDeLaVida_init s (int lado) (int lado) ps p of
        Inl e \<Rightarrow> Inl e
      | Inr (juego, s1) \<Rightarrow>
     (case array_split (grilla juego) p of
        Inl e \<Rightarrow> Inl e
      | Inr subgrillas \<Rightarrow>
     (case subgrillas of
        [] \<Rightarrow> Inl IndexError
      | sg0 # _ \<Rightarrow>
     (case worker s1 sg0 1 of
        Inl e \<Rightarrow> Inl e
      | Inr (_, s2) \<Rightarrow>
     (let (inicio, s3) = time_time s2
      in case pool_starmap s3 p (map (\<lambda>sg. (sg, ps)) subgrillas) of
           Inl e \<Rightarrow> Inl e
         | Inr _ \<Rightarrow>
             (let (fin, s4) = time_time s3;
                  tiempo = fin - inicio;
                  s5 = print_linea s4 (Procesos p lado);
                  s6 = print_linea s5 (Tiempo tiempo)
              in Inr (tiempo, juego, s6))))))))"

fun bucle ::
  "mundo \<Rightarrow> int \<Rightarrow> int \<Rightarrow> int list \<Rightarrow> real list \<Rightarrow> error + (real list \<times> mundo)" where
  "bucle s celdas_por_proceso ps [] tiempos = Inr (tiempos, s)"
| "bucle s celdas_por_proceso ps (p # resto) tiempos =
     (case iteracion s celdas_por_proceso ps p of
        Inl e \<Rightarrow> Inl e
      | Inr (tiempo, _, s1) \<Rightarrow> bucle s1 celdas_por_proceso ps resto (tiempos @ [tiempo]))"

definition escalamiento_debil ::
  "mundo \<Rightarrow> int \<Rightarrow> int \<Rightarrow> int list \<Rightarrow> error + (real list \<times> mundo)" where
  "escalamiento_debil s celdas_por_proceso ps lista_procesos =
     bucle s celdas_por_proceso ps lista_procesos []"

section \<open>What the kernel is meant to compute\<close>

text \<open>
  The toroidal neighbour count in the words of the specification: the sum of the
  eight neighbours of a cell, row and column indices taken modulo the numbers of rows
  and columns. It is a natural number, so it cannot wrap.
\<close>

definition vecinos_toroidales :: "uint8 ndarray \<Rightarrow> nat \<Rightarrow> nat \<Rightarrow> nat" where
  "vecinos_toroidales a i j =
     sum_list (map (\<lambda>(di, dj).
        unat (celda a (nat ((int i + di) mod int (nrows a)))
                      (nat ((int j + dj) mod int (ncols a)))))
       [(- 1, - 1), (- 1, 0), (- 1, 1), (0, - 1), (0, 1), (1, - 1), (1, 0), (1, 1)])"

text \<open>The value of the array that one pass of the rule allocates, as a function of the
  value of the current grid.\<close>

definition siguiente :: "uint8 ndarray \<Rightarrow> uint8 ndarray" where
  "siguiente g =
     astype_uint8 (np_or (np_eq (contar_vecinos g) 3)
                         (np_and (np_eq g 1) (np_eq (contar_vecinos g) 2)))"

fun iterar :: "nat \<Rightarrow> uint8 ndarray \<Rightarrow> uint8 ndarray" where
  "iterar 0 g = g"
| "iterar (Suc n) g = iterar n (siguiente g)"

text \<open>Memory only grows: every buffer that existed before is still there, unchanged.\<close>

definition conserva :: "mundo \<Rightarrow> mundo \<Rightarrow> bool" where
  "conserva s s' \<longleftrightarrow>
     length (memoria s) \<le> length (memoria s') \<and>
     take (length (memoria s)) (memoria s') = memoria s"

text \<open>A small world to run the definitions on: one 3 x 3 grid with a vertical line.\<close>

definition mundo_ejemplo :: mundo where
  "mundo_ejemplo =
     \<lparr>memoria = [\<lparr>nrows = 3, ncols = 3, datos = [[0, 1, 0], [0, 1, 0], [0, 1, 0]]\<rparr>],
      azar = (\<lambda>k. even k), reloj = (\<lambda>k. real k), salida = []\<rparr>"

definition juego_ejemplo :: JuegoDeLaVida where
  "juego_ejemplo =
     \<lparr>filas = 3, columnas = 3, pasos = 2, procesos = 1,
      grilla = \<lparr>base = 0, desde = 0, hasta = 3\<rparr>\<rparr>"

text \<open>A second world: one 5 x 3 grid whose rows 1 to 3 are the grid of the first world,
  with another random source and another clock.\<close>

definition mundo_ejemplo2 :: mundo where
  "mundo_ejemplo2 =
     \<lparr>memoria = [\<lparr>nrows = 5, ncols = 3,
                   datos = [[1, 1, 1], [0, 1, 0], [0, 1, 0], [0, 1, 0], [1, 0, 1]]\<rparr>],
      azar = (\<lambda>k. True), reloj = (\<lambda>k. 2 * real k), salida = []\<rparr>"

definition vista_banda :: vista where
  "vista_banda = \<lparr>base = 0, desde = 1, hasta = 4\<rparr>"

definition vista_entera :: vista where
  "vista_entera = \<lparr>base = 0, desde = 0, hasta = 5\<rparr>"

text \<open>Names for the proofs about the partition: the division points of
  \<open>array_split\<close>, and the number of rows of section \<open>i\<close>.\<close>

definition div_points :: "nat \<Rightarrow> nat \<Rightarrow> nat list" where
  "div_points N n = cumsum 0 (section_sizes N n)"

definition tam :: "nat \<Rightarrow> nat \<Rightarrow> nat \<Rightarrow> nat" where
  "tam N n i = N div n + (if i < N mod n then 1 else 0)"

definition banda :: "vista \<Rightarrow> nat \<Rightarrow> nat \<Rightarrow> vista" where
  "banda ary n i =
     \<lparr>base = base ary,
      desde = desde ary + div_points (hasta ary - desde ary) n ! i,
      hasta = desde ary + div_points (hasta ary - desde ary) n ! Suc i\<rparr>"

text \<open>The lines that a successful run of \<open>escalamiento_debil\<close> prints for the worker
  counts \<open>lista\<close> and the elapsed times \<open>ts\<close>.\<close>

definition lineas :: "int \<Rightarrow> int list \<Rightarrow> real list \<Rightarrow> linea list" where
  "lineas c lista ts =
     concat (map (\<lambda>(p, t). [Procesos p (lado_float64 (c * p)), Tiempo t]) (zip lista ts))"

text \<open>The first example world with a clock that is set back between any two readings.\<close>

definition mundo_reloj_atrasado :: mundo where
  "mundo_reloj_atrasado = mundo_ejemplo\<lparr>reloj := (\<lambda>k. - real k)\<rparr>"

text \<open>The worker counts at which one pass of the loop of \<open>escalamiento_debil\<close> fails,
  for a given cells_per_worker.\<close>

definition malo :: "int \<Rightarrow> int \<Rightarrow> bool" where
  "malo c p \<longleftrightarrow> p \<le> 0 \<or> c * p < 0 \<or> 2 ^ 64 \<le> c * p"

section \<open>Lemmas on the array operations\<close>

lemma length_roll_list [simp]: "length (roll_list xs s) = length xs"
  by (simp add: roll_list_def)

lemma nth_roll_list:
  assumes "i < length xs"
  shows "roll_list xs s ! i = xs ! nat ((int i - s) mod int (length xs))"
proof -
  let ?L = "length xs"
  from assms have ne: "xs \<noteq> []" by (cases xs) simp_all
  have pos: "0 < int ?L" using ne by simp
  have m: "0 \<le> (- s) mod int ?L" using pos by simp
  have "int ((nat ((- s) mod int ?L) + i) mod ?L) = ((- s) mod int ?L + int i) mod int ?L"
    using m by (simp add: zmod_int)
  also have "\<dots> = (int i - s) mod int ?L"
    by (simp add: mod_add_left_eq)
  finally have "(nat ((- s) mod int ?L) + i) mod ?L = nat ((int i - s) mod int ?L)"
    by linarith
  with assms ne show ?thesis
    by (simp add: roll_list_def nth_rotate)
qed

lemma np_roll_forma [simp]:
  "nrows (np_roll a s ax) = nrows a" "ncols (np_roll a s ax) = ncols a"
  by (simp_all add: np_roll_def)

lemma np_roll_bien_formada:
  "bien_formada a \<Longrightarrow> bien_formada (np_roll a s ax)"
  by (auto simp: bien_formada_def np_roll_def list_all_iff roll_list_def)

lemma celda_np_roll_0:
  assumes "bien_formada a" "i < nrows a"
  shows "celda (np_roll a s 0) i j = celda a (nat ((int i - s) mod int (nrows a))) j"
  using assms by (simp add: celda_def np_roll_def bien_formada_def nth_roll_list)

lemma celda_np_roll_1:
  assumes "bien_formada a" "i < nrows a" "j < ncols a"
  shows "celda (np_roll a s (Suc 0)) i j = celda a i (nat ((int j - s) mod int (ncols a)))"
  using assms by (simp add: celda_def np_roll_def bien_formada_def nth_roll_list list_all_length)

lemma np_add_forma [simp]:
  "nrows (np_add a b) = nrows a" "ncols (np_add a b) = ncols a"
  by (simp_all add: np_add_def)

lemma np_add_bien_formada:
  "bien_formada a \<Longrightarrow> bien_formada b \<Longrightarrow> nrows b = nrows a \<Longrightarrow> ncols b = ncols a \<Longrightarrow>
   bien_formada (np_add a b)"
  by (auto simp: bien_formada_def np_add_def list_all_length)

lemma celda_np_add:
  assumes "bien_formada a" "bien_formada b" "nrows b = nrows a" "ncols b = ncols a"
    "i < nrows a" "j < ncols a"
  shows "celda (np_add a b) i j = celda a i j + celda b i j"
  using assms by (simp add: celda_def np_add_def bien_formada_def list_all_length)

lemma idx_lt: "0 < n \<Longrightarrow> nat (k mod int n) < n"
  by (simp add: nat_less_iff)

lemma celda_roll_roll:
  assumes "bien_formada a" "i < nrows a" "j < ncols a"
  shows "celda (np_roll (np_roll a s 0) t (Suc 0)) i j =
         celda a (nat ((int i - s) mod int (nrows a))) (nat ((int j - t) mod int (ncols a)))"
proof -
  have "nat ((int j - t) mod int (ncols a)) < ncols a" using assms by (simp add: idx_lt)
  then show ?thesis using assms
    by (simp add: celda_np_roll_1 np_roll_bien_formada celda_np_roll_0)
qed

lemma roll_roll_bf:
  "bien_formada a \<Longrightarrow> bien_formada (np_roll (np_roll a s 0) t (Suc 0))"
  by (simp add: np_roll_bien_formada)

lemma contar_vecinos_forma [simp]:
  "nrows (contar_vecinos a) = nrows a" "ncols (contar_vecinos a) = ncols a"
  by (simp_all add: contar_vecinos_def)

lemma contar_vecinos_bien_formada:
  "bien_formada a \<Longrightarrow> bien_formada (contar_vecinos a)"
  unfolding contar_vecinos_def
  by (intro np_add_bien_formada np_roll_bien_formada) simp_all

lemma celda_contar_vecinos:
  assumes "bien_formada a" "i < nrows a" "j < ncols a"
  shows "celda (contar_vecinos a) i j =
     celda a (nat ((int i - 1) mod int (nrows a))) (nat ((int j - 1) mod int (ncols a))) +
     celda a (nat ((int i - 1) mod int (nrows a))) (nat ((int j - 0) mod int (ncols a))) +
     celda a (nat ((int i - 1) mod int (nrows a))) (nat ((int j - (- 1)) mod int (ncols a))) +
     celda a (nat ((int i - 0) mod int (nrows a))) (nat ((int j - 1) mod int (ncols a))) +
     celda a (nat ((int i - 0) mod int (nrows a))) (nat ((int j - (- 1)) mod int (ncols a))) +
     celda a (nat ((int i - (- 1)) mod int (nrows a))) (nat ((int j - 1) mod int (ncols a))) +
     celda a (nat ((int i - (- 1)) mod int (nrows a))) (nat ((int j - 0) mod int (ncols a))) +
     celda a (nat ((int i - (- 1)) mod int (nrows a))) (nat ((int j - (- 1)) mod int (ncols a)))"
  unfolding contar_vecinos_def One_nat_def
  using assms
  by (simp only: celda_np_add celda_roll_roll np_add_bien_formada roll_roll_bf
        np_add_forma np_roll_forma)

lemma celda_binaria:
  "bien_formada a \<Longrightarrow> binaria a \<Longrightarrow> i < nrows a \<Longrightarrow> j < ncols a \<Longrightarrow>
   celda a i j = 0 \<or> celda a i j = 1"
  by (simp add: bien_formada_def binaria_def celda_def list_all_length)

lemma unat_celda_binaria:
  "bien_formada a \<Longrightarrow> binaria a \<Longrightarrow> i < nrows a \<Longrightarrow> j < ncols a \<Longrightarrow>
   unat (celda a i j) \<le> 1"
  using celda_binaria [of a i j] by auto

lemma contar_vecinos_toroidales:
  assumes "bien_formada a" "i < nrows a" "j < ncols a"
  shows "celda (contar_vecinos a) i j = of_nat (vecinos_toroidales a i j)"
  using assms
  by (simp add: celda_contar_vecinos vecinos_toroidales_def diff_conv_add_uminus
       del: add_uminus_conv_diff)

lemma vecinos_toroidales_le:
  assumes "bien_formada a" "binaria a" "i < nrows a" "j < ncols a"
  shows "vecinos_toroidales a i j \<le> 8"
proof -
  have r: "\<And>d. nat ((int i + d) mod int (nrows a)) < nrows a" using assms by (simp add: idx_lt)
  have c: "\<And>d. nat ((int j + d) mod int (ncols a)) < ncols a" using assms by (simp add: idx_lt)
  note u = unat_celda_binaria [OF assms(1,2) r c]
  show ?thesis
    unfolding vecinos_toroidales_def
    using u [of "-1" "-1"] u [of "-1" 0] u [of "-1" 1] u [of 0 "-1"] u [of 0 1]
      u [of 1 "-1"] u [of 1 0] u [of 1 1]
    by simp
qed

lemma contar_vecinos_eq_iff:
  assumes "bien_formada a" "binaria a" "i < nrows a" "j < ncols a" "k \<le> 8"
  shows "celda (contar_vecinos a) i j = of_nat k \<longleftrightarrow> vecinos_toroidales a i j = k"
proof -
  have le: "vecinos_toroidales a i j \<le> 8" using assms by (simp add: vecinos_toroidales_le)
  have "unat (of_nat (vecinos_toroidales a i j) :: uint8) = vecinos_toroidales a i j"
    using le by (simp add: unat_of_nat)
  moreover have "unat (of_nat k :: uint8) = k"
    using assms(5) by (simp add: unat_of_nat)
  ultimately show ?thesis
    using assms by (metis contar_vecinos_toroidales)
qed

lemma np_eq_forma [simp]:
  "nrows (np_eq a k) = nrows a" "ncols (np_eq a k) = ncols a"
  by (simp_all add: np_eq_def)

lemma np_or_forma [simp]:
  "nrows (np_or a b) = nrows a" "ncols (np_or a b) = ncols a"
  by (simp_all add: np_or_def)

lemma np_and_forma [simp]:
  "nrows (np_and a b) = nrows a" "ncols (np_and a b) = ncols a"
  by (simp_all add: np_and_def)

lemma astype_uint8_forma [simp]:
  "nrows (astype_uint8 a) = nrows a" "ncols (astype_uint8 a) = ncols a"
  by (simp_all add: astype_uint8_def)

lemma np_eq_bien_formada: "bien_formada a \<Longrightarrow> bien_formada (np_eq a k)"
  by (simp add: bien_formada_def np_eq_def list_all_length)

lemma np_or_bien_formada:
  "bien_formada a \<Longrightarrow> bien_formada b \<Longrightarrow> nrows b = nrows a \<Longrightarrow> ncols b = ncols a \<Longrightarrow>
   bien_formada (np_or a b)"
  by (auto simp: bien_formada_def np_or_def list_all_length)

lemma np_and_bien_formada:
  "bien_formada a \<Longrightarrow> bien_formada b \<Longrightarrow> nrows b = nrows a \<Longrightarrow> ncols b = ncols a \<Longrightarrow>
   bien_formada (np_and a b)"
  by (auto simp: bien_formada_def np_and_def list_all_length)

lemma astype_uint8_bien_formada: "bien_formada a \<Longrightarrow> bien_formada (astype_uint8 a)"
  by (simp add: bien_formada_def astype_uint8_def list_all_length)

lemma celda_np_eq:
  "bien_formada a \<Longrightarrow> i < nrows a \<Longrightarrow> j < ncols a \<Longrightarrow>
   celda (np_eq a k) i j \<longleftrightarrow> celda a i j = k"
  by (simp add: celda_def np_eq_def bien_formada_def list_all_length)

lemma celda_np_or:
  assumes "bien_formada a" "bien_formada b" "nrows b = nrows a" "ncols b = ncols a"
    "i < nrows a" "j < ncols a"
  shows "celda (np_or a b) i j \<longleftrightarrow> celda a i j \<or> celda b i j"
  using assms by (simp add: celda_def np_or_def bien_formada_def list_all_length)

lemma celda_np_and:
  assumes "bien_formada a" "bien_formada b" "nrows b = nrows a" "ncols b = ncols a"
    "i < nrows a" "j < ncols a"
  shows "celda (np_and a b) i j \<longleftrightarrow> celda a i j \<and> celda b i j"
  using assms by (simp add: celda_def np_and_def bien_formada_def list_all_length)

lemma celda_astype_uint8:
  "bien_formada a \<Longrightarrow> i < nrows a \<Longrightarrow> j < ncols a \<Longrightarrow>
   celda (astype_uint8 a) i j = of_bool (celda a i j)"
  by (simp add: celda_def astype_uint8_def bien_formada_def list_all_length)

lemma siguiente_forma [simp]:
  "nrows (siguiente a) = nrows a" "ncols (siguiente a) = ncols a"
  by (simp_all add: siguiente_def)

lemma siguiente_bien_formada: "bien_formada a \<Longrightarrow> bien_formada (siguiente a)"
  unfolding siguiente_def
  by (intro astype_uint8_bien_formada np_or_bien_formada np_and_bien_formada
        np_eq_bien_formada contar_vecinos_bien_formada) simp_all

lemma siguiente_binaria: "binaria (siguiente a)"
  by (simp add: siguiente_def astype_uint8_def binaria_def list_all_iff)

lemma celda_siguiente:
  assumes "bien_formada a" "i < nrows a" "j < ncols a"
  shows "celda (siguiente a) i j =
     of_bool (celda (contar_vecinos a) i j = 3 \<or>
              celda a i j = 1 \<and> celda (contar_vecinos a) i j = 2)"
  unfolding siguiente_def using assms
  by (simp add: celda_astype_uint8 celda_np_or celda_np_and celda_np_eq
        np_or_bien_formada np_and_bien_formada np_eq_bien_formada
        contar_vecinos_bien_formada)

lemma celda_siguiente_regla:
  assumes "bien_formada a" "binaria a" "i < nrows a" "j < ncols a"
  shows "celda (siguiente a) i j =
     (if vecinos_toroidales a i j = 3 \<or>
         celda a i j = 1 \<and> vecinos_toroidales a i j = 2 then 1 else 0)"
  using assms contar_vecinos_eq_iff [OF assms, of 3] contar_vecinos_eq_iff [OF assms, of 2]
  by (simp add: celda_siguiente)

lemma iterar_forma [simp]:
  "nrows (iterar n a) = nrows a" "ncols (iterar n a) = ncols a"
  by (induction n arbitrary: a) simp_all

lemma iterar_bien_formada: "bien_formada a \<Longrightarrow> bien_formada (iterar n a)"
  by (induction n arbitrary: a) (simp_all add: siguiente_bien_formada)

lemma iterar_binaria: "binaria a \<Longrightarrow> binaria (iterar n a)"
  by (induction n arbitrary: a) (simp_all add: siguiente_binaria)

section \<open>Lemmas on the store\<close>

lemma conserva_refl [simp]: "conserva s s"
  by (simp add: conserva_def)

lemma conserva_trans:
  assumes "conserva s s1" "conserva s1 s2"
  shows "conserva s s2"
proof -
  have l: "length (memoria s) \<le> length (memoria s1)" "length (memoria s1) \<le> length (memoria s2)"
    using assms by (simp_all add: conserva_def)
  have "take (length (memoria s)) (memoria s2) =
        take (length (memoria s)) (take (length (memoria s1)) (memoria s2))"
    using l by (simp add: min_def)
  also have "\<dots> = memoria s"
    using assms by (simp add: conserva_def)
  finally show ?thesis using l by (simp add: conserva_def)
qed

lemma conserva_nth:
  assumes "conserva s s'" "k < length (memoria s)"
  shows "memoria s' ! k = memoria s ! k"
proof -
  have "take (length (memoria s)) (memoria s') ! k = memoria s' ! k"
    using assms(2) by simp
  then show ?thesis using assms(1) by (simp add: conserva_def)
qed

lemma conserva_leer:
  "conserva s s' \<Longrightarrow> base v < length (memoria s) \<Longrightarrow> leer s' v = leer s v"
  by (simp add: leer_def conserva_nth)

lemma conserva_valida:
  assumes "conserva s s'" "valida s v"
  shows "valida s' v"
proof -
  have b: "base v < length (memoria s)" using assms(2) by (simp add: valida_def)
  have "memoria s' ! base v = memoria s ! base v" using assms(1) b by (rule conserva_nth)
  moreover have "base v < length (memoria s')" using assms(1) b by (simp add: conserva_def)
  ultimately show ?thesis using assms(2) by (simp add: valida_def)
qed

lemma conserva_nuevo: "nuevo s a = (r, s') \<Longrightarrow> conserva s s'"
  by (auto simp: nuevo_def conserva_def)

lemma base_nuevo: "nuevo s a = (r, s') \<Longrightarrow> base r = length (memoria s)"
  by (auto simp: nuevo_def)

lemma leer_nuevo: "bien_formada a \<Longrightarrow> nuevo s a = (r, s') \<Longrightarrow> leer s' r = a"
  by (auto simp: nuevo_def leer_def Let_def bien_formada_def)

lemma valida_nuevo: "bien_formada a \<Longrightarrow> nuevo s a = (r, s') \<Longrightarrow> valida s' r"
  by (auto simp: nuevo_def valida_def)

lemma leer_bien_formada:
  assumes "valida s v"
  shows "bien_formada (leer s v)"
proof -
  let ?b = "memoria s ! base v"
  have bf: "bien_formada ?b" and le: "desde v \<le> hasta v" "hasta v \<le> nrows ?b"
    using assms by (simp_all add: valida_def)
  have len: "length (datos ?b) = nrows ?b" using bf by (simp add: bien_formada_def)
  have "set (take (hasta v - desde v) (drop (desde v) (datos ?b))) \<subseteq> set (datos ?b)"
    by (meson set_take_subset set_drop_subset subset_trans)
  then have "list_all (\<lambda>r. length r = ncols ?b) (take (hasta v - desde v) (drop (desde v) (datos ?b)))"
    using bf unfolding bien_formada_def list_all_iff by blast
  then show ?thesis
    using len le by (simp add: leer_def Let_def bien_formada_def)
qed

lemma nuevo_otros [simp]:
  "azar (snd (nuevo s a)) = azar s" "reloj (snd (nuevo s a)) = reloj s"
  "salida (snd (nuevo s a)) = salida s"
  by (simp_all add: nuevo_def)

text \<open>One pass of the rule, as \<open>step\<close> and the loop of \<open>worker\<close> both write it.\<close>

lemma paso_efecto:
  assumes v: "valida s g"
    and n1: "nuevo s (contar_vecinos (leer s g)) = (rv, s1)"
    and n2: "nuevo s1 (astype_uint8
             (np_or (np_eq (leer s1 rv) 3)
                    (np_and (np_eq (leer s1 g) 1) (np_eq (leer s1 rv) 2)))) = (rg, s2)"
  shows "leer s2 rg = siguiente (leer s g)" "valida s2 rg" "conserva s s2"
    "length (memoria s) \<le> base rg"
    "azar s2 = azar s" "reloj s2 = reloj s" "salida s2 = salida s"
proof -
  have bf: "bien_formada (leer s g)" using v by (rule leer_bien_formada)
  have c1: "conserva s s1" using n1 by (rule conserva_nuevo)
  have l1: "leer s1 rv = contar_vecinos (leer s g)"
    using contar_vecinos_bien_formada [OF bf] n1 by (rule leer_nuevo)
  have lg: "leer s1 g = leer s g"
    using c1 v by (simp add: conserva_leer valida_def)
  have e: "astype_uint8
             (np_or (np_eq (leer s1 rv) 3)
                    (np_and (np_eq (leer s1 g) 1) (np_eq (leer s1 rv) 2))) = siguiente (leer s g)"
    by (simp only: l1 lg siguiente_def)
  have bs: "bien_formada (siguiente (leer s g))" using bf by (rule siguiente_bien_formada)
  from n2 have n2': "nuevo s1 (siguiente (leer s g)) = (rg, s2)" by (simp only: e)
  show "leer s2 rg = siguiente (leer s g)" using bs n2' by (rule leer_nuevo)
  show "valida s2 rg" using bs n2' by (rule valida_nuevo)
  have c2: "conserva s1 s2" using n2' by (rule conserva_nuevo)
  show "conserva s s2" using c1 c2 by (rule conserva_trans)
  have "base rg = length (memoria s1)" using n2' by (rule base_nuevo)
  then show "length (memoria s) \<le> base rg" using c1 by (simp add: conserva_def)
  have s1: "s1 = snd (nuevo s (contar_vecinos (leer s g)))" by (simp add: n1)
  have s2: "s2 = snd (nuevo s1 (siguiente (leer s g)))" by (simp add: n2')
  show "azar s2 = azar s" by (simp add: s1 s2)
  show "reloj s2 = reloj s" by (simp add: s1 s2)
  show "salida s2 = salida s" by (simp add: s1 s2)
qed

lemma step_efecto:
  assumes "valida s (grilla self)" "step s self = (self', s')"
  shows "leer s' (grilla self') = siguiente (leer s (grilla self))"
    "valida s' (grilla self')" "conserva s s'" "length (memoria s) \<le> base (grilla self')"
proof -
  obtain rv s1 where n1: "nuevo s (contar_vecinos (leer s (grilla self))) = (rv, s1)"
    by (cases "nuevo s (contar_vecinos (leer s (grilla self)))")
  obtain rg s2 where n2: "nuevo s1 (astype_uint8
             (np_or (np_eq (leer s1 rv) 3)
                    (np_and (np_eq (leer s1 (grilla self)) 1) (np_eq (leer s1 rv) 2)))) = (rg, s2)"
    by (cases "nuevo s1 (astype_uint8
             (np_or (np_eq (leer s1 rv) 3)
                    (np_and (np_eq (leer s1 (grilla self)) 1) (np_eq (leer s1 rv) 2))))")
  note e = paso_efecto [OF assms(1) n1 n2]
  from assms(2) n1 n2 have r: "self' = self\<lparr>grilla := rg\<rparr>" "s' = s2"
    by (simp_all add: step_def Let_def)
  show "leer s' (grilla self') = siguiente (leer s (grilla self))" using e(1) by (simp add: r)
  show "valida s' (grilla self')" using e(2) by (simp add: r)
  show "conserva s s'" using e(3) by (simp add: r)
  show "length (memoria s) \<le> base (grilla self')" using e(4) by (simp add: r)
qed

lemma run_bucle_efecto:
  "valida s (grilla self) \<Longrightarrow> run_bucle n s self = (self', s') \<Longrightarrow>
   leer s' (grilla self') = iterar n (leer s (grilla self)) \<and>
   valida s' (grilla self') \<and> conserva s s'"
proof (induction n arbitrary: s self)
  case 0
  then show ?case by simp
next
  case (Suc n)
  obtain self1 s1 where st: "step s self = (self1, s1)" by (cases "step s self")
  note e = step_efecto [OF Suc.prems(1) st]
  from Suc.prems(2) st have "run_bucle n s1 self1 = (self', s')" by simp
  from Suc.IH [OF e(2) this]
  have ih: "leer s' (grilla self') = iterar n (leer s1 (grilla self1))"
    "valida s' (grilla self')" "conserva s1 s'" by simp_all
  have "conserva s s'" using e(3) ih(3) by (rule conserva_trans)
  then show ?case using ih(1,2) e(1) by simp
qed

lemma worker_bucle_efecto:
  "valida s (grilla juego) \<Longrightarrow> worker_bucle n s juego = (juego', s') \<Longrightarrow>
   leer s' (grilla juego') = iterar n (leer s (grilla juego)) \<and>
   valida s' (grilla juego') \<and> conserva s s' \<and>
   (0 < n \<longrightarrow> length (memoria s) \<le> base (grilla juego'))"
proof (induction n arbitrary: s juego)
  case 0
  then show ?case by simp
next
  case (Suc n)
  obtain rv s1 where n1: "nuevo s (contar_vecinos (leer s (grilla juego))) = (rv, s1)"
    by (cases "nuevo s (contar_vecinos (leer s (grilla juego)))")
  obtain rg s2 where n2: "nuevo s1 (astype_uint8
             (np_or (np_eq (leer s1 rv) 3)
                    (np_and (np_eq (leer s1 (grilla juego)) 1) (np_eq (leer s1 rv) 2)))) = (rg, s2)"
    by (cases "nuevo s1 (astype_uint8
             (np_or (np_eq (leer s1 rv) 3)
                    (np_and (np_eq (leer s1 (grilla juego)) 1) (np_eq (leer s1 rv) 2))))")
  note e = paso_efecto [OF Suc.prems(1) n1 n2]
  from Suc.prems(2) n1 n2
  have w: "worker_bucle n s2 (juego\<lparr>grilla := rg\<rparr>) = (juego', s')" by (simp add: Let_def)
  have v2: "valida s2 (grilla (juego\<lparr>grilla := rg\<rparr>))" using e(2) by simp
  from Suc.IH [OF v2 w]
  have ih: "leer s' (grilla juego') = iterar n (leer s2 rg)"
    "valida s' (grilla juego')" "conserva s2 s'"
    "0 < n \<longrightarrow> length (memoria s2) \<le> base (grilla juego')" by simp_all
  have c: "conserva s s'" using e(3) ih(3) by (rule conserva_trans)
  have "length (memoria s) \<le> base (grilla juego')"
  proof (cases n)
    case 0
    with w have "juego' = juego\<lparr>grilla := rg\<rparr>" by simp
    then show ?thesis using e(4) by simp
  next
    case (Suc m)
    then have "length (memoria s2) \<le> base (grilla juego')" using ih(4) by simp
    moreover have "length (memoria s) \<le> length (memoria s2)" using e(3) by (simp add: conserva_def)
    ultimately show ?thesis by simp
  qed
  then show ?case using ih(1,2) e(1) c by simp
qed

section \<open>One step of the game\<close>

text \<open>
  Claim C1. For every grid of 0/1 cells, \<open>step\<close> leaves in \<open>self.grilla\<close> a grid of
  the same dimensions in which a cell is 1 exactly when its toroidal neighbour count
  (the sum of its eight neighbours, indices modulo the grid's rows and columns) is 3,
  or the cell was 1 and the count is 2, and 0 otherwise. The counts and the rule are
  taken from the grid as it was before the step, and that array is still in memory,
  unchanged, after the step.
\<close>

theorem step_regla_toroidal:
  assumes "valida s (grilla self)" and "binaria (leer s (grilla self))"
    and "step s self = (self', s')"
  shows "nrows (leer s' (grilla self')) = nrows (leer s (grilla self)) \<and>
         ncols (leer s' (grilla self')) = ncols (leer s (grilla self)) \<and>
         bien_formada (leer s' (grilla self')) \<and>
         (\<forall>i<nrows (leer s (grilla self)). \<forall>j<ncols (leer s (grilla self)).
            celda (leer s' (grilla self')) i j =
              (if vecinos_toroidales (leer s (grilla self)) i j = 3 \<or>
                  celda (leer s (grilla self)) i j = 1 \<and>
                  vecinos_toroidales (leer s (grilla self)) i j = 2
               then 1 else 0)) \<and>
         leer s' (grilla self) = leer s (grilla self)"
proof -
  note e = step_efecto [OF assms(1,3)]
  have bf: "bien_formada (leer s (grilla self))" using assms(1) by (rule leer_bien_formada)
  have "leer s' (grilla self) = leer s (grilla self)"
    using e(3) assms(1) by (simp add: conserva_leer valida_def)
  moreover have "bien_formada (leer s' (grilla self'))"
    using bf by (simp add: e(1) siguiente_bien_formada)
  ultimately show ?thesis
    using bf assms(2) by (simp add: e(1) celda_siguiente_regla)
qed

theorem step_regla_toroidal_witness:
  "valida mundo_ejemplo (grilla juego_ejemplo) \<and>
   binaria (leer mundo_ejemplo (grilla juego_ejemplo)) \<and>
   (1::nat) < nrows (leer mundo_ejemplo (grilla juego_ejemplo)) \<and>
   (0::nat) < ncols (leer mundo_ejemplo (grilla juego_ejemplo)) \<and>
   vecinos_toroidales (leer mundo_ejemplo (grilla juego_ejemplo)) 1 0 = 3 \<and>
   celda (leer (snd (step mundo_ejemplo juego_ejemplo))
               (grilla (fst (step mundo_ejemplo juego_ejemplo)))) 1 0 = 1"
proof -
  have v: "valida mundo_ejemplo (grilla juego_ejemplo)"
    by (simp add: valida_def mundo_ejemplo_def juego_ejemplo_def bien_formada_def)
  have l: "leer mundo_ejemplo (grilla juego_ejemplo) =
            \<lparr>nrows = 3, ncols = 3, datos = [[0, 1, 0], [0, 1, 0], [0, 1, 0]]\<rparr>"
    by (simp add: leer_def mundo_ejemplo_def juego_ejemplo_def)
  have b: "binaria (leer mundo_ejemplo (grilla juego_ejemplo))"
    by (simp add: l binaria_def)
  have n: "vecinos_toroidales (leer mundo_ejemplo (grilla juego_ejemplo)) 1 0 = 3"
    by (simp add: l vecinos_toroidales_def celda_def)
  have st: "step mundo_ejemplo juego_ejemplo =
             (fst (step mundo_ejemplo juego_ejemplo), snd (step mundo_ejemplo juego_ejemplo))"
    by simp
  from step_regla_toroidal [OF v b st] have
    "celda (leer (snd (step mundo_ejemplo juego_ejemplo))
               (grilla (fst (step mundo_ejemplo juego_ejemplo)))) 1 0 =
     (if vecinos_toroidales (leer mundo_ejemplo (grilla juego_ejemplo)) 1 0 = 3 \<or>
                  celda (leer mundo_ejemplo (grilla juego_ejemplo)) 1 0 = 1 \<and>
                  vecinos_toroidales (leer mundo_ejemplo (grilla juego_ejemplo)) 1 0 = 2
               then 1 else 0)"
    by (simp add: l)
  with v b n show ?thesis by (simp add: l)
qed

section \<open>Creation of a grid\<close>

lemma sorteo_forma [simp]: "nrows (sorteo z R C) = R" "ncols (sorteo z R C) = C"
  by (simp_all add: sorteo_def)

lemma sorteo_bien_formada: "bien_formada (sorteo z R C)"
  by (simp add: sorteo_def bien_formada_def list_all_iff)

lemma sorteo_binaria: "binaria (sorteo z R C)"
  by (simp add: sorteo_def binaria_def list_all_iff)

lemma celda_sorteo:
  "i < R \<Longrightarrow> j < C \<Longrightarrow> celda (sorteo z R C) i j = of_bool (z (i * C + j))"
  by (simp add: sorteo_def celda_def)

lemma randint2_efecto:
  assumes "0 \<le> f" "0 \<le> c"
  shows "\<exists>v s'. randint2 s f c = Inr (v, s') \<and> valida s' v \<and> conserva s s' \<and>
           base v = length (memoria s) \<and> leer s' v = sorteo (azar s) (nat f) (nat c) \<and>
           reloj s' = reloj s \<and> salida s' = salida s"
proof -
  let ?a = "sorteo (azar s) (nat f) (nat c)"
  obtain v s1 where n: "nuevo s ?a = (v, s1)" by (cases "nuevo s ?a")
  let ?s' = "s1\<lparr>azar := (\<lambda>k. azar s (k + nat f * nat c))\<rparr>"
  have r: "randint2 s f c = Inr (v, ?s')"
    using assms n by (simp add: randint2_def Let_def)
  have m: "memoria ?s' = memoria s1" by simp
  have v1: "valida s1 v" using sorteo_bien_formada n by (rule valida_nuevo)
  have c1: "conserva s s1" using n by (rule conserva_nuevo)
  have l1: "leer s1 v = ?a" using sorteo_bien_formada n by (rule leer_nuevo)
  have s1: "s1 = snd (nuevo s ?a)" by (simp add: n)
  have "valida ?s' v" using v1 by (simp add: valida_def)
  moreover have "conserva s ?s'" using c1 by (simp add: conserva_def)
  moreover have "base v = length (memoria s)" using n by (rule base_nuevo)
  moreover have "leer ?s' v = ?a" using l1 by (simp add: leer_def)
  moreover have "reloj ?s' = reloj s" by (simp add: s1)
  moreover have "salida ?s' = salida s" by (simp add: s1)
  ultimately show ?thesis using r by blast
qed

lemma randint2_error: "f < 0 \<or> c < 0 \<Longrightarrow> randint2 s f c = Inl ValueError"
  by (simp add: randint2_def)

lemma init_efecto:
  assumes "0 \<le> f" "0 \<le> c"
  shows "\<exists>juego s'. JuegoDeLaVida_init s f c ps p = Inr (juego, s') \<and>
           filas juego = f \<and> columnas juego = c \<and> pasos juego = ps \<and> procesos juego = p \<and>
           valida s' (grilla juego) \<and> conserva s s' \<and>
           base (grilla juego) = length (memoria s) \<and>
           leer s' (grilla juego) = sorteo (azar s) (nat f) (nat c) \<and>
           reloj s' = reloj s \<and> salida s' = salida s"
proof -
  from randint2_efecto [OF assms, of s] obtain v s' where
    r: "randint2 s f c = Inr (v, s')" and
    rest: "valida s' v" "conserva s s'" "base v = length (memoria s)"
      "leer s' v = sorteo (azar s) (nat f) (nat c)" "reloj s' = reloj s" "salida s' = salida s"
    by blast
  have "JuegoDeLaVida_init s f c ps p =
        Inr (\<lparr>filas = f, columnas = c, pasos = ps, procesos = p, grilla = v\<rparr>, s')"
    by (simp add: JuegoDeLaVida_init_def r)
  then show ?thesis using rest by simp
qed

section \<open>Effect of the worker\<close>

lemma worker_bucle_otros:
  "worker_bucle n s juego = (juego', s') \<Longrightarrow>
   reloj s' = reloj s \<and> salida s' = salida s \<and> azar s' = azar s"
proof (induction n arbitrary: s juego)
  case 0
  then show ?case by simp
next
  case (Suc n)
  obtain rv s1 where n1: "nuevo s (contar_vecinos (leer s (grilla juego))) = (rv, s1)"
    by (cases "nuevo s (contar_vecinos (leer s (grilla juego)))")
  obtain rg s2 where n2: "nuevo s1 (astype_uint8
             (np_or (np_eq (leer s1 rv) 3)
                    (np_and (np_eq (leer s1 (grilla juego)) 1) (np_eq (leer s1 rv) 2)))) = (rg, s2)"
    by (cases "nuevo s1 (astype_uint8
             (np_or (np_eq (leer s1 rv) 3)
                    (np_and (np_eq (leer s1 (grilla juego)) 1) (np_eq (leer s1 rv) 2))))")
  from Suc.prems n1 n2
  have w: "worker_bucle n s2 (juego\<lparr>grilla := rg\<rparr>) = (juego', s')" by (simp add: Let_def)
  have e1: "s1 = snd (nuevo s (contar_vecinos (leer s (grilla juego))))" by (simp add: n1)
  have e2: "s2 = snd (nuevo s1 (astype_uint8
             (np_or (np_eq (leer s1 rv) 3)
                    (np_and (np_eq (leer s1 (grilla juego)) 1) (np_eq (leer s1 rv) 2)))))"
    by (simp add: n2)
  have "reloj s2 = reloj s1 \<and> salida s2 = salida s1 \<and> azar s2 = azar s1"
    by (subst (1 2 3) e2) simp
  moreover have "reloj s1 = reloj s \<and> salida s1 = salida s \<and> azar s1 = azar s"
    by (subst (1 2 3) e1) simp
  ultimately show ?case using Suc.IH [OF w] by simp
qed

lemma worker_efecto:
  assumes "valida s v"
  shows "\<exists>r s'. worker s v g = Inr (r, s') \<and> leer s' r = iterar (nat g) (leer s v) \<and>
           valida s' r \<and> conserva s s' \<and> (0 < g \<longrightarrow> length (memoria s) \<le> base r) \<and>
           reloj s' = reloj s \<and> salida s' = salida s"
proof -
  let ?a = "leer s v"
  from init_efecto [of "int (nrows ?a)" "int (ncols ?a)" s g 1]
  obtain juego s1 where
    i: "JuegoDeLaVida_init s (int (nrows ?a)) (int (ncols ?a)) g 1 = Inr (juego, s1)" and
    c1: "conserva s s1" and o1: "reloj s1 = reloj s" "salida s1 = salida s"
    by auto
  let ?j1 = "juego\<lparr>grilla := v\<rparr>"
  obtain juego2 s2 where w: "worker_bucle (nat g) s1 ?j1 = (juego2, s2)"
    by (cases "worker_bucle (nat g) s1 ?j1")
  have r: "worker s v g = Inr (grilla juego2, s2)"
    by (simp add: worker_def Let_def i w)
  have v1: "valida s1 (grilla ?j1)" using conserva_valida [OF c1 assms] by simp
  from worker_bucle_efecto [OF v1 w]
  have e: "leer s2 (grilla juego2) = iterar (nat g) (leer s1 v)" "valida s2 (grilla juego2)"
    "conserva s1 s2" "0 < nat g \<longrightarrow> length (memoria s1) \<le> base (grilla juego2)"
    by simp_all
  have l: "leer s1 v = leer s v" using c1 assms by (simp add: conserva_leer valida_def)
  have c: "conserva s s2" using c1 e(3) by (rule conserva_trans)
  have len: "length (memoria s) \<le> length (memoria s1)" using c1 by (simp add: conserva_def)
  have f: "0 < g \<longrightarrow> length (memoria s) \<le> base (grilla juego2)" using e(4) len by auto
  have o: "reloj s2 = reloj s" "salida s2 = salida s"
    using worker_bucle_otros [OF w] o1 by simp_all
  show ?thesis using r e(1,2) l c f o by simp
qed

lemma valida_ejemplo: "valida mundo_ejemplo (grilla juego_ejemplo)"
  by (simp add: valida_def mundo_ejemplo_def juego_ejemplo_def bien_formada_def)

lemma leer_ejemplo:
  "leer mundo_ejemplo (grilla juego_ejemplo) =
     \<lparr>nrows = 3, ncols = 3, datos = [[0, 1, 0], [0, 1, 0], [0, 1, 0]]\<rparr>"
  by (simp add: leer_def mundo_ejemplo_def juego_ejemplo_def)

lemma valida_banda: "valida mundo_ejemplo2 vista_banda"
  by (simp add: valida_def mundo_ejemplo2_def vista_banda_def bien_formada_def)

lemma leer_banda:
  "leer mundo_ejemplo2 vista_banda =
     \<lparr>nrows = 3, ncols = 3, datos = [[0, 1, 0], [0, 1, 0], [0, 1, 0]]\<rparr>"
  by (simp add: leer_def mundo_ejemplo2_def vista_banda_def)

lemma valida_entera: "valida mundo_ejemplo2 vista_entera"
  by (simp add: valida_def mundo_ejemplo2_def vista_entera_def bien_formada_def)

section \<open>Repeated steps\<close>

text \<open>
  Claim C2. For every grid whose cells are all 0 or 1 and every generation count, the
  loop of \<open>worker\<close> and \<open>run\<close> (which calls \<open>step\<close> that many times) both end with a
  grid that has the same number of rows and of columns, every row of that length, and
  every cell 0 or 1.
\<close>

theorem pasos_conservan_forma_y_dominio:
  assumes "valida s (grilla self)" and "binaria (leer s (grilla self))"
  shows "(\<exists>r s'. worker s (grilla self) (pasos self) = Inr (r, s') \<and>
            nrows (leer s' r) = nrows (leer s (grilla self)) \<and>
            ncols (leer s' r) = ncols (leer s (grilla self)) \<and>
            bien_formada (leer s' r) \<and> binaria (leer s' r)) \<and>
         (\<exists>self' s'. run s self = (self', s') \<and>
            nrows (leer s' (grilla self')) = nrows (leer s (grilla self)) \<and>
            ncols (leer s' (grilla self')) = ncols (leer s (grilla self)) \<and>
            bien_formada (leer s' (grilla self')) \<and> binaria (leer s' (grilla self')))"
proof
  let ?a = "leer s (grilla self)"
  have bf: "bien_formada ?a" using assms(1) by (rule leer_bien_formada)
  have p: "bien_formada (iterar n ?a) \<and> binaria (iterar n ?a)" for n
    using bf assms(2) by (simp add: iterar_bien_formada iterar_binaria)
  from worker_efecto [OF assms(1), of "pasos self"] obtain r s' where
    w: "worker s (grilla self) (pasos self) = Inr (r, s')"
      "leer s' r = iterar (nat (pasos self)) ?a" by blast
  show "\<exists>r s'. worker s (grilla self) (pasos self) = Inr (r, s') \<and>
            nrows (leer s' r) = nrows ?a \<and> ncols (leer s' r) = ncols ?a \<and>
            bien_formada (leer s' r) \<and> binaria (leer s' r)"
    using w p by (intro exI [of _ r] exI [of _ s']) simp
  obtain self' t where r: "run_bucle (nat (pasos self)) s self = (self', t)"
    by (cases "run_bucle (nat (pasos self)) s self")
  from run_bucle_efecto [OF assms(1) r]
  have e: "leer t (grilla self') = iterar (nat (pasos self)) ?a" by simp
  show "\<exists>self' s'. run s self = (self', s') \<and>
            nrows (leer s' (grilla self')) = nrows ?a \<and>
            ncols (leer s' (grilla self')) = ncols ?a \<and>
            bien_formada (leer s' (grilla self')) \<and> binaria (leer s' (grilla self'))"
    using r e p by (intro exI [of _ self'] exI [of _ t]) (simp add: run_def)
qed

theorem pasos_conservan_forma_y_dominio_witness:
  "valida mundo_ejemplo (grilla juego_ejemplo) \<and>
   binaria (leer mundo_ejemplo (grilla juego_ejemplo)) \<and>
   pasos juego_ejemplo = 2 \<and>
   (\<exists>r s'. worker mundo_ejemplo (grilla juego_ejemplo) 2 = Inr (r, s') \<and>
      nrows (leer s' r) = 3 \<and> ncols (leer s' r) = 3 \<and>
      bien_formada (leer s' r) \<and> binaria (leer s' r)) \<and>
   (\<exists>self' s'. run mundo_ejemplo juego_ejemplo = (self', s') \<and>
      nrows (leer s' (grilla self')) = 3 \<and> ncols (leer s' (grilla self')) = 3 \<and>
      bien_formada (leer s' (grilla self')) \<and> binaria (leer s' (grilla self')))"
proof -
  have b: "binaria (leer mundo_ejemplo (grilla juego_ejemplo))"
    by (simp add: leer_ejemplo binaria_def)
  have p: "pasos juego_ejemplo = 2" by (simp add: juego_ejemplo_def)
  from pasos_conservan_forma_y_dominio [OF valida_ejemplo b]
  show ?thesis using valida_ejemplo b p by (simp add: leer_ejemplo)
qed

section \<open>Determinism of the worker\<close>

text \<open>
  Claim C9. The worker is deterministic: two sub-grids with the same dimensions and
  cell contents, wherever they lie in memory and whatever the state of the random
  source, give the same output grid for the same generation count. The output is the
  rule iterated on the contents of the sub-grid alone, so the wrap-around of every step
  stays within the sub-grid's own rows and columns.
\<close>

theorem worker_determinista:
  assumes "valida s1 v1" and "valida s2 v2" and "leer s1 v1 = leer s2 v2"
  shows "\<exists>r1 t1 r2 t2. worker s1 v1 g = Inr (r1, t1) \<and> worker s2 v2 g = Inr (r2, t2) \<and>
           leer t1 r1 = leer t2 r2 \<and> leer t1 r1 = iterar (nat g) (leer s1 v1)"
proof -
  from worker_efecto [OF assms(1), of g] obtain r1 t1 where
    w1: "worker s1 v1 g = Inr (r1, t1)" "leer t1 r1 = iterar (nat g) (leer s1 v1)" by blast
  from worker_efecto [OF assms(2), of g] obtain r2 t2 where
    w2: "worker s2 v2 g = Inr (r2, t2)" "leer t2 r2 = iterar (nat g) (leer s2 v2)" by blast
  show ?thesis using w1 w2 assms(3) by simp
qed

theorem worker_determinista_witness:
  "valida mundo_ejemplo (grilla juego_ejemplo) \<and> valida mundo_ejemplo2 vista_banda \<and>
   leer mundo_ejemplo (grilla juego_ejemplo) = leer mundo_ejemplo2 vista_banda \<and>
   (\<exists>r1 t1 r2 t2. worker mundo_ejemplo (grilla juego_ejemplo) 1 = Inr (r1, t1) \<and>
      worker mundo_ejemplo2 vista_banda 1 = Inr (r2, t2) \<and>
      leer t1 r1 = leer t2 r2 \<and>
      datos (leer t1 r1) = [[1, 1, 1], [1, 1, 1], [1, 1, 1]])"
proof -
  have e: "leer mundo_ejemplo (grilla juego_ejemplo) = leer mundo_ejemplo2 vista_banda"
    by (simp add: leer_ejemplo leer_banda)
  have d: "datos (iterar (nat 1) (leer mundo_ejemplo (grilla juego_ejemplo))) =
           [[1, 1, 1], [1, 1, 1], [1, 1, 1]]"
    by code_simp
  from worker_determinista [OF valida_ejemplo valida_banda e, of 1]
  show ?thesis using valida_ejemplo valida_banda e d by metis
qed

section \<open>Lemmas on the partition\<close>

lemma length_cumsum [simp]: "length (cumsum acc xs) = length xs"
  by (induction xs arbitrary: acc) simp_all

lemma cumsum_nth: "i < length xs \<Longrightarrow> cumsum acc xs ! i = acc + sum_list (take (Suc i) xs)"
proof (induction xs arbitrary: acc i)
  case Nil
  then show ?case by simp
next
  case (Cons x xs)
  show ?case
  proof (cases i)
    case 0
    then show ?thesis by simp
  next
    case (Suc k)
    with Cons.prems have "k < length xs" by simp
    from Cons.IH [OF this, of "acc + x"] Suc show ?thesis by simp
  qed
qed

lemma length_section_sizes [simp]:
  "0 < n \<Longrightarrow> length (section_sizes N n) = Suc n"
proof -
  assume "0 < n"
  then have "N mod n \<le> n" by simp
  then show ?thesis by (simp add: section_sizes_def Let_def)
qed

lemma section_sizes_nth:
  assumes "0 < n" "i < n"
  shows "section_sizes N n ! Suc i = tam N n i"
  using assms by (simp add: section_sizes_def Let_def nth_append tam_def)

lemma section_sizes_0: "section_sizes N n ! 0 = 0"
  by (simp add: section_sizes_def Let_def)

lemma sum_list_section_sizes:
  assumes "0 < n"
  shows "sum_list (section_sizes N n) = N"
proof -
  let ?q = "N div n" and ?r = "N mod n"
  have r: "?r \<le> n" using assms by simp
  have "sum_list (section_sizes N n) = ?r * (?q + 1) + (n - ?r) * ?q"
    by (simp add: section_sizes_def Let_def sum_list_replicate)
  also have "\<dots> = ?r + (?r + (n - ?r)) * ?q"
    by (simp add: algebra_simps)
  also have "\<dots> = ?r + n * ?q" using r by simp
  also have "\<dots> = N" by simp
  finally show ?thesis .
qed

lemma length_div_points [simp]: "0 < n \<Longrightarrow> length (div_points N n) = Suc n"
  by (simp add: div_points_def)

lemma div_points_0: "0 < n \<Longrightarrow> div_points N n ! 0 = 0"
  by (simp add: div_points_def cumsum_nth take_Suc_conv_app_nth section_sizes_0)

lemma div_points_Suc:
  assumes "0 < n" "i < n"
  shows "div_points N n ! Suc i = div_points N n ! i + tam N n i"
proof -
  have l: "Suc i < length (section_sizes N n)" "i < length (section_sizes N n)"
    using assms by simp_all
  have "take (Suc (Suc i)) (section_sizes N n) =
        take (Suc i) (section_sizes N n) @ [section_sizes N n ! Suc i]"
    using l(1) by (rule take_Suc_conv_app_nth)
  then show ?thesis
    using l assms by (simp add: div_points_def cumsum_nth section_sizes_nth)
qed

lemma div_points_last:
  assumes "0 < n"
  shows "div_points N n ! n = N"
  using assms by (simp add: div_points_def cumsum_nth sum_list_section_sizes)

lemma div_points_mono_Suc:
  "0 < n \<Longrightarrow> i < n \<Longrightarrow> div_points N n ! i \<le> div_points N n ! Suc i"
  by (simp add: div_points_Suc)

lemma div_points_mono:
  assumes "0 < n" "j \<le> n"
  shows "i \<le> j \<Longrightarrow> div_points N n ! i \<le> div_points N n ! j"
  using assms(2)
proof (induction j)
  case 0
  then show ?case by simp
next
  case (Suc j)
  show ?case
  proof (cases "i = Suc j")
    case True
    then show ?thesis by simp
  next
    case False
    with Suc.prems have "i \<le> j" "j < n" by simp_all
    then have "div_points N n ! i \<le> div_points N n ! j" using Suc.IH by simp
    also have "\<dots> \<le> div_points N n ! Suc j"
      using assms(1) \<open>j < n\<close> by (rule div_points_mono_Suc)
    finally show ?thesis .
  qed
qed

lemma div_points_le:
  assumes "0 < n" "i \<le> n"
  shows "div_points N n ! i \<le> N"
  using div_points_mono [OF assms(1) order_refl assms(2), of N] assms(1)
  by (simp add: div_points_last)

lemma rebanada_banda:
  assumes "0 < n" "i < n"
  shows "rebanada ary (div_points (hasta ary - desde ary) n ! i)
           (div_points (hasta ary - desde ary) n ! (i + 1)) = banda ary n i"
proof -
  let ?N = "hasta ary - desde ary"
  have a: "div_points ?N n ! i \<le> ?N" using assms by (simp add: div_points_le)
  have b: "div_points ?N n ! Suc i \<le> ?N" using assms by (simp add: div_points_le)
  have c: "div_points ?N n ! i \<le> div_points ?N n ! Suc i"
    using assms by (rule div_points_mono_Suc)
  show ?thesis using a b c by (simp add: rebanada_def banda_def Let_def min_def max_def)
qed

lemma array_split_error: "n \<le> 0 \<Longrightarrow> array_split ary n = Inl ValueError"
  by (simp add: array_split_def)

lemma array_split_Inr_bandas:
  assumes "0 < n"
  shows "array_split ary n = Inr (map (banda ary (nat n)) [0..<nat n])"
proof -
  have "map (\<lambda>i. rebanada ary (div_points (hasta ary - desde ary) (nat n) ! i)
           (div_points (hasta ary - desde ary) (nat n) ! (i + 1))) [0..<nat n] =
        map (banda ary (nat n)) [0..<nat n]"
    using assms by (intro map_cong refl rebanada_banda) simp_all
  then show ?thesis using assms
    by (simp add: array_split_def Let_def div_points_def)
qed

lemma nrows_leer [simp]: "nrows (leer s v) = hasta v - desde v"
  by (simp add: leer_def Let_def)

lemma ncols_leer [simp]: "ncols (leer s v) = ncols (memoria s ! base v)"
  by (simp add: leer_def Let_def)

lemma banda_campos:
  assumes "0 < n" "i < n"
  shows "base (banda ary n i) = base ary"
    "hasta (banda ary n i) - desde (banda ary n i) = tam (hasta ary - desde ary) n i"
    "desde (banda ary n i) \<le> hasta (banda ary n i)"
    "desde ary \<le> hasta ary \<Longrightarrow> hasta (banda ary n i) \<le> hasta ary"
proof -
  let ?N = "hasta ary - desde ary"
  show "base (banda ary n i) = base ary" by (simp add: banda_def)
  show "hasta (banda ary n i) - desde (banda ary n i) = tam ?N n i"
    using assms by (simp add: banda_def div_points_Suc)
  show "desde (banda ary n i) \<le> hasta (banda ary n i)"
    using assms by (simp add: banda_def div_points_Suc)
  have "div_points ?N n ! Suc i \<le> ?N" using assms by (simp add: div_points_le)
  then show "desde ary \<le> hasta ary \<Longrightarrow> hasta (banda ary n i) \<le> hasta ary"
    by (simp add: banda_def)
qed

lemma valida_banda_de:
  assumes "valida s ary" "0 < n" "i < n"
  shows "valida s (banda ary n i)"
proof -
  have d: "desde ary \<le> hasta ary" using assms(1) by (simp add: valida_def)
  note c = banda_campos [OF assms(2,3), of ary]
  have "hasta (banda ary n i) \<le> nrows (memoria s ! base ary)"
    using c(4) [OF d] assms(1) by (simp add: valida_def)
  then show ?thesis using assms(1) c(1,3) by (simp add: valida_def)
qed

lemma sum_list_tam:
  assumes "0 < n"
  shows "sum_list (map (tam N n) [0..<n]) = N"
proof -
  have "map (tam N n) [0..<n] = tl (section_sizes N n)"
  proof (rule nth_equalityI)
    show "length (map (tam N n) [0..<n]) = length (tl (section_sizes N n))"
      using assms by simp
  next
    fix i assume "i < length (map (tam N n) [0..<n])"
    then have "i < n" by simp
    then show "map (tam N n) [0..<n] ! i = tl (section_sizes N n) ! i"
      using assms by (simp add: nth_tl section_sizes_nth)
  qed
  moreover have "sum_list (tl (section_sizes N n)) = sum_list (section_sizes N n)"
    by (simp add: section_sizes_def Let_def)
  ultimately show ?thesis using assms by (simp add: sum_list_section_sizes)
qed

lemma tam_diferencia: "tam N n i \<le> tam N n j + 1"
  by (simp add: tam_def)

lemma tam_positivo: "0 < n \<Longrightarrow> n \<le> N \<Longrightarrow> 1 \<le> tam N n i"
  by (simp add: tam_def div_greater_zero_iff trans_le_add1 Suc_leI)

lemma tam_cero: "N < n \<Longrightarrow> N \<le> i \<Longrightarrow> tam N n i = 0"
  by (simp add: tam_def)

lemma concat_rebanadas:
  assumes "\<And>i. i < n \<Longrightarrow> d i \<le> d (Suc i)" "d 0 = 0"
  shows "concat (map (\<lambda>i. take (d (Suc i) - d i) (drop (d i) xs)) [0..<n]) = take (d n) xs"
  using assms(1)
proof (induction n)
  case 0
  then show ?case using assms(2) by simp
next
  case (Suc n)
  have le: "d n \<le> d (Suc n)" using Suc.prems by simp
  have "concat (map (\<lambda>i. take (d (Suc i) - d i) (drop (d i) xs)) [0..<Suc n]) =
        take (d n) xs @ take (d (Suc n) - d n) (drop (d n) xs)"
    using Suc by simp
  also have "\<dots> = take (d n + (d (Suc n) - d n)) xs" by (simp add: take_add)
  also have "\<dots> = take (d (Suc n)) xs" using le by simp
  finally show ?case .
qed

lemma concat_bandas:
  assumes "0 < n"
  shows "concat (map (\<lambda>b. datos (leer s b)) (map (banda ary n) [0..<n])) = datos (leer s ary)"
proof -
  let ?N = "hasta ary - desde ary"
  let ?d = "\<lambda>i. div_points ?N n ! i"
  let ?ys = "drop (desde ary) (datos (memoria s ! base ary))"
  have e: "datos (leer s (banda ary n i)) = take (?d (Suc i) - ?d i) (drop (?d i) ?ys)" for i
    by (simp add: leer_def Let_def banda_def add.commute)
  have "concat (map (\<lambda>i. take (?d (Suc i) - ?d i) (drop (?d i) ?ys)) [0..<n]) = take (?d n) ?ys"
    using assms by (intro concat_rebanadas) (simp_all add: div_points_mono_Suc div_points_0)
  moreover have "map (\<lambda>b. datos (leer s b)) (map (banda ary n) [0..<n]) =
      map (\<lambda>i. take (?d (Suc i) - ?d i) (drop (?d i) ?ys)) [0..<n]"
    by (simp only: map_map comp_def e)
  moreover have "datos (leer s ary) = take ?N ?ys" by (simp add: leer_def Let_def)
  ultimately show ?thesis using assms by (simp only: div_points_last)
qed

lemma banda_primera: "0 < n \<Longrightarrow> desde (banda ary n 0) = desde ary"
  by (simp add: banda_def div_points_0)

lemma banda_ultima:
  "0 < n \<Longrightarrow> desde ary \<le> hasta ary \<Longrightarrow> hasta (banda ary n (n - 1)) = hasta ary"
  by (simp add: banda_def div_points_last)

lemma banda_siguiente: "hasta (banda ary n i) = desde (banda ary n (Suc i))"
  by (simp add: banda_def)

lemma nrows_bandas:
  assumes "0 < n"
  shows "map (\<lambda>b. nrows (leer s b)) (map (banda ary n) [0..<n]) =
         map (tam (hasta ary - desde ary) n) [0..<n]"
  using assms by (simp add: banda_campos(2))

lemma vista_entera_split:
  "array_split vista_entera 2 =
     Inr [\<lparr>base = 0, desde = 0, hasta = 3\<rparr>, \<lparr>base = 0, desde = 3, hasta = 5\<rparr>]"
  by code_simp

section \<open>The partition\<close>

text \<open>
  Claim C3. For every grid with R rows and every n with 1 \<le> n \<le> R, \<open>np.array_split\<close>
  returns exactly n bands; their row counts sum to R and differ pairwise by at most
  one; every band has at least one row, lies inside the grid and keeps its column
  count; the first band starts at the first row of the grid, every band starts where
  the one before it ends, and the last band ends at the last row.
\<close>

theorem array_split_bandas:
  assumes "valida s ary" and "1 \<le> n" and "n \<le> int (nrows (leer s ary))"
  shows "\<exists>bs. array_split ary n = Inr bs \<and> length bs = nat n \<and>
           sum_list (map (\<lambda>b. nrows (leer s b)) bs) = nrows (leer s ary) \<and>
           (\<forall>i<length bs. \<forall>j<length bs.
              nrows (leer s (bs ! i)) \<le> nrows (leer s (bs ! j)) + 1) \<and>
           (\<forall>i<length bs. valida s (bs ! i) \<and> base (bs ! i) = base ary \<and>
              1 \<le> nrows (leer s (bs ! i)) \<and>
              ncols (leer s (bs ! i)) = ncols (leer s ary)) \<and>
           desde (bs ! 0) = desde ary \<and>
           (\<forall>i. Suc i < length bs \<longrightarrow> hasta (bs ! i) = desde (bs ! Suc i)) \<and>
           hasta (bs ! (length bs - 1)) = hasta ary"
proof -
  let ?m = "nat n" and ?N = "hasta ary - desde ary"
  let ?bs = "map (banda ary ?m) [0..<?m]"
  have m: "0 < ?m" "?m \<le> ?N" using assms(2,3) by simp_all
  have d: "desde ary \<le> hasta ary" using assms(1) by (simp add: valida_def)
  have sp: "array_split ary n = Inr ?bs" using assms(2) by (simp add: array_split_Inr_bandas)
  have nth: "?bs ! i = banda ary ?m i" if "i < ?m" for i using that by simp
  have rows: "nrows (leer s (?bs ! i)) = tam ?N ?m i" if "i < ?m" for i
    using that m(1) by (simp add: banda_campos(2))
  have "sum_list (map (\<lambda>b. nrows (leer s b)) ?bs) = sum_list (map (tam ?N ?m) [0..<?m])"
    using nrows_bandas [OF m(1), of s ary] by (simp only:)
  also have "\<dots> = ?N" using m(1) by (rule sum_list_tam)
  finally have 1: "sum_list (map (\<lambda>b. nrows (leer s b)) ?bs) = nrows (leer s ary)"
    by simp
  have 2: "\<forall>i<length ?bs. \<forall>j<length ?bs.
              nrows (leer s (?bs ! i)) \<le> nrows (leer s (?bs ! j)) + 1"
    using rows by (simp add: tam_def)
  have 3: "\<forall>i<length ?bs. valida s (?bs ! i) \<and> base (?bs ! i) = base ary \<and>
              1 \<le> nrows (leer s (?bs ! i)) \<and>
              ncols (leer s (?bs ! i)) = ncols (leer s ary)"
  proof (intro allI impI)
    fix i assume "i < length ?bs"
    then have i: "i < ?m" by simp
    have "valida s (banda ary ?m i)" using assms(1) m(1) i by (rule valida_banda_de)
    moreover have "base (banda ary ?m i) = base ary" using m(1) i by (rule banda_campos(1))
    moreover have "1 \<le> tam ?N ?m i" using m by (rule tam_positivo)
    ultimately show "valida s (?bs ! i) \<and> base (?bs ! i) = base ary \<and>
              1 \<le> nrows (leer s (?bs ! i)) \<and>
              ncols (leer s (?bs ! i)) = ncols (leer s ary)"
      using i rows [OF i] by (simp add: nth)
  qed
  have 4: "desde (?bs ! 0) = desde ary" using m(1) by (simp add: banda_primera)
  have 5: "\<forall>i. Suc i < length ?bs \<longrightarrow> hasta (?bs ! i) = desde (?bs ! Suc i)"
    by (simp add: banda_siguiente)
  have 6: "hasta (?bs ! (length ?bs - 1)) = hasta ary"
    using banda_ultima [OF m(1) d] m(1) by simp
  have l: "length ?bs = nat n" by simp
  show ?thesis using sp l 1 2 3 4 5 6 by blast
qed

theorem array_split_bandas_witness:
  "valida mundo_ejemplo2 vista_entera \<and> (1::int) \<le> 2 \<and>
   (2::int) \<le> int (nrows (leer mundo_ejemplo2 vista_entera)) \<and>
   (\<exists>bs. array_split vista_entera 2 = Inr bs \<and> length bs = 2 \<and>
      sum_list (map (\<lambda>b. nrows (leer mundo_ejemplo2 b)) bs) = 5 \<and>
      nrows (leer mundo_ejemplo2 (bs ! 0)) = 3 \<and> nrows (leer mundo_ejemplo2 (bs ! 1)) = 2 \<and>
      valida mundo_ejemplo2 (bs ! 0) \<and> valida mundo_ejemplo2 (bs ! 1) \<and>
      desde (bs ! 0) = 0 \<and> hasta (bs ! 0) = desde (bs ! 1) \<and> hasta (bs ! 1) = 5)"
proof -
  have h: "(1::int) \<le> 2" "(2::int) \<le> int (nrows (leer mundo_ejemplo2 vista_entera))"
    by (simp_all add: vista_entera_def)
  have v0: "valida mundo_ejemplo2 \<lparr>base = 0, desde = 0, hasta = 3\<rparr>"
    by (simp add: valida_def mundo_ejemplo2_def bien_formada_def)
  have v1: "valida mundo_ejemplo2 \<lparr>base = 0, desde = 3, hasta = 5\<rparr>"
    by (simp add: valida_def mundo_ejemplo2_def bien_formada_def)
  from array_split_bandas [OF valida_entera h]
  have "\<exists>bs. array_split vista_entera 2 = Inr bs \<and> length bs = nat 2" by blast
  then show ?thesis using valida_entera h v0 v1
    by (simp add: vista_entera_split)
qed

text \<open>
  Claim C4. For every grid and every band count n \<ge> 1, the rows of the bands returned
  by \<open>np.array_split\<close>, concatenated in the order of the bands, are the rows of the
  grid: same order, same cells. Every band has the column count of the grid.
\<close>

theorem array_split_reensambla:
  assumes "1 \<le> n"
  shows "\<exists>bs. array_split ary n = Inr bs \<and>
           concat (map (\<lambda>b. datos (leer s b)) bs) = datos (leer s ary) \<and>
           list_all (\<lambda>b. ncols (leer s b) = ncols (leer s ary)) bs"
proof -
  let ?m = "nat n"
  let ?bs = "map (banda ary ?m) [0..<?m]"
  have m: "0 < ?m" using assms by simp
  have sp: "array_split ary n = Inr ?bs" using assms by (simp add: array_split_Inr_bandas)
  have c: "concat (map (\<lambda>b. datos (leer s b)) ?bs) = datos (leer s ary)"
    using m by (rule concat_bandas)
  have "list_all (\<lambda>b. ncols (leer s b) = ncols (leer s ary)) ?bs"
    using m by (simp add: list_all_iff banda_campos(1))
  then show ?thesis using sp c by blast
qed

theorem array_split_reensambla_witness:
  "(1::int) \<le> 2 \<and>
   (\<exists>bs. array_split vista_entera 2 = Inr bs \<and>
      concat (map (\<lambda>b. datos (leer mundo_ejemplo2 b)) bs) =
        [[1, 1, 1], [0, 1, 0], [0, 1, 0], [0, 1, 0], [1, 0, 1]] \<and>
      datos (leer mundo_ejemplo2 (bs ! 0)) = [[1, 1, 1], [0, 1, 0], [0, 1, 0]] \<and>
      datos (leer mundo_ejemplo2 (bs ! 1)) = [[0, 1, 0], [1, 0, 1]])"
proof -
  have h: "(1::int) \<le> 2" by simp
  have d: "datos (leer mundo_ejemplo2 vista_entera) =
           [[1, 1, 1], [0, 1, 0], [0, 1, 0], [0, 1, 0], [1, 0, 1]]"
    by (simp add: leer_def mundo_ejemplo2_def vista_entera_def)
  have b0: "datos (leer mundo_ejemplo2 \<lparr>base = 0, desde = 0, hasta = 3\<rparr>) =
            [[1, 1, 1], [0, 1, 0], [0, 1, 0]]"
    by (simp add: leer_def mundo_ejemplo2_def)
  have b1: "datos (leer mundo_ejemplo2 \<lparr>base = 0, desde = 3, hasta = 5\<rparr>) =
            [[0, 1, 0], [1, 0, 1]]"
    by (simp add: leer_def mundo_ejemplo2_def)
  from array_split_reensambla [OF h, of vista_entera mundo_ejemplo2]
  show ?thesis using h by (simp add: vista_entera_split d b0 b1)
qed

text \<open>
  Claim C6, as stated: splitting a grid with R rows into n bands fails whenever
  n \<le> 0 or n > R, so that every band has at least one row. It does not: the 3 x 3
  grid of the first example world is split into 4 bands without an error, and the last
  band is empty.
\<close>

theorem array_split_mas_bandas_que_filas_counterexample:
  "nrows (leer mundo_ejemplo (grilla juego_ejemplo)) = 3 \<and>
   array_split (grilla juego_ejemplo) 4 =
     Inr [\<lparr>base = 0, desde = 0, hasta = 1\<rparr>, \<lparr>base = 0, desde = 1, hasta = 2\<rparr>,
          \<lparr>base = 0, desde = 2, hasta = 3\<rparr>, \<lparr>base = 0, desde = 3, hasta = 3\<rparr>]"
  by code_simp

text \<open>
  Claim C6, amended. Splitting a grid with R rows into n bands fails, with ValueError,
  exactly when n \<le> 0. For every n \<ge> 1 it returns n bands, band i with
  R div n rows plus one more when i < R mod n; every band has at least one row exactly
  when n \<le> R, and for n > R the bands from the R-th on are empty.
\<close>

theorem array_split_errores:
  "(n \<le> 0 \<longrightarrow> array_split ary n = Inl ValueError) \<and>
   (0 < n \<longrightarrow>
      (\<exists>bs. array_split ary n = Inr bs \<and> length bs = nat n \<and>
         (\<forall>i<length bs. nrows (leer s (bs ! i)) =
            nrows (leer s ary) div nat n + (if i < nrows (leer s ary) mod nat n then 1 else 0)) \<and>
         ((\<forall>i<length bs. 1 \<le> nrows (leer s (bs ! i))) \<longleftrightarrow> n \<le> int (nrows (leer s ary))) \<and>
         (\<forall>i<length bs. nrows (leer s ary) < nat n \<longrightarrow> nrows (leer s ary) \<le> i \<longrightarrow>
            nrows (leer s (bs ! i)) = 0)))"
proof (intro conjI impI)
  assume "n \<le> 0"
  then show "array_split ary n = Inl ValueError" by (rule array_split_error)
next
  assume n: "0 < n"
  let ?m = "nat n" and ?N = "hasta ary - desde ary"
  let ?bs = "map (banda ary ?m) [0..<?m]"
  have m: "0 < ?m" using n by simp
  have sp: "array_split ary n = Inr ?bs" using n by (rule array_split_Inr_bandas)
  have l: "length ?bs = ?m" by simp
  have N: "nrows (leer s ary) = ?N" by simp
  have rows: "nrows (leer s (?bs ! i)) = tam ?N ?m i" if "i < ?m" for i
  proof -
    have "?bs ! i = banda ary ?m i" using that by simp
    then show ?thesis using banda_campos(2) [OF m that, of ary] by simp
  qed
  have 1: "\<forall>i<length ?bs. nrows (leer s (?bs ! i)) =
            nrows (leer s ary) div ?m + (if i < nrows (leer s ary) mod ?m then 1 else 0)"
  proof (intro allI impI)
    fix i assume "i < length ?bs"
    then have "i < ?m" by simp
    then show "nrows (leer s (?bs ! i)) =
            nrows (leer s ary) div ?m + (if i < nrows (leer s ary) mod ?m then 1 else 0)"
      by (simp only: rows N tam_def)
  qed
  have 2: "(\<forall>i<length ?bs. 1 \<le> nrows (leer s (?bs ! i))) \<longleftrightarrow> n \<le> int (nrows (leer s ary))"
  proof
    assume a: "\<forall>i<length ?bs. 1 \<le> nrows (leer s (?bs ! i))"
    show "n \<le> int (nrows (leer s ary))"
    proof (rule ccontr)
      assume "\<not> n \<le> int (nrows (leer s ary))"
      then have lt: "?N < ?m" by simp
      have i: "?m - 1 < ?m" using m by simp
      have "?N \<le> ?m - 1" using lt by simp
      with lt have "tam ?N ?m (?m - 1) = 0" by (rule tam_cero)
      moreover have "1 \<le> nrows (leer s (?bs ! (?m - 1)))" using a i by (simp only: l)
      ultimately show False by (simp only: rows [OF i])
    qed
  next
    assume "n \<le> int (nrows (leer s ary))"
    then have "?m \<le> ?N" by simp
    then have t: "1 \<le> tam ?N ?m i" for i using m by (intro tam_positivo)
    show "\<forall>i<length ?bs. 1 \<le> nrows (leer s (?bs ! i))"
    proof (intro allI impI)
      fix i assume "i < length ?bs"
      then have "i < ?m" by simp
      then show "1 \<le> nrows (leer s (?bs ! i))" using t [of i] by (simp only: rows)
    qed
  qed
  have 3: "\<forall>i<length ?bs. nrows (leer s ary) < ?m \<longrightarrow> nrows (leer s ary) \<le> i \<longrightarrow>
            nrows (leer s (?bs ! i)) = 0"
  proof (intro allI impI)
    fix i assume "i < length ?bs" and a: "nrows (leer s ary) < ?m" "nrows (leer s ary) \<le> i"
    then have i: "i < ?m" by simp
    have "tam ?N ?m i = 0" using a by (intro tam_cero) simp_all
    then show "nrows (leer s (?bs ! i)) = 0" by (simp only: rows [OF i])
  qed
  show "\<exists>bs. array_split ary n = Inr bs \<and> length bs = nat n \<and>
         (\<forall>i<length bs. nrows (leer s (bs ! i)) =
            nrows (leer s ary) div nat n + (if i < nrows (leer s ary) mod nat n then 1 else 0)) \<and>
         ((\<forall>i<length bs. 1 \<le> nrows (leer s (bs ! i))) \<longleftrightarrow> n \<le> int (nrows (leer s ary))) \<and>
         (\<forall>i<length bs. nrows (leer s ary) < nat n \<longrightarrow> nrows (leer s ary) \<le> i \<longrightarrow>
            nrows (leer s (bs ! i)) = 0)"
    by (rule exI [of _ ?bs], intro conjI) (rule sp l 1 2 3)+
qed

theorem array_split_errores_witness:
  "(0::int) \<le> 0 \<and> array_split (grilla juego_ejemplo) 0 = Inl ValueError \<and>
   (0::int) < 4 \<and>
   (\<exists>bs. array_split (grilla juego_ejemplo) 4 = Inr bs \<and> length bs = 4 \<and>
      nrows (leer mundo_ejemplo (bs ! 0)) = 1 \<and> nrows (leer mundo_ejemplo (bs ! 3)) = 0)"
proof -
  have a: "array_split (grilla juego_ejemplo) 0 = Inl ValueError"
    using array_split_errores [of 0 "grilla juego_ejemplo" mundo_ejemplo] by simp
  have "\<exists>bs. array_split (grilla juego_ejemplo) 4 = Inr bs \<and> length bs = nat 4"
    using array_split_errores [of 4 "grilla juego_ejemplo" mundo_ejemplo] by auto
  moreover have "array_split (grilla juego_ejemplo) 4 =
     Inr [\<lparr>base = 0, desde = 0, hasta = 1\<rparr>, \<lparr>base = 0, desde = 1, hasta = 2\<rparr>,
          \<lparr>base = 0, desde = 2, hasta = 3\<rparr>, \<lparr>base = 0, desde = 3, hasta = 3\<rparr>]"
    by code_simp
  ultimately show ?thesis using a by simp
qed

section \<open>Creation\<close>

text \<open>
  Claim C7, as stated: grid creation fails whenever rows \<le> 0 or cols \<le> 0. It does
  not: with 0 rows and 3 columns the constructor returns a game whose grid is the
  empty array of shape (0, 3).
\<close>

theorem JuegoDeLaVida_init_cero_counterexample:
  "\<not> isl (JuegoDeLaVida_init mundo_ejemplo 0 3 2 1) \<and>
   leer (snd (projr (JuegoDeLaVida_init mundo_ejemplo 0 3 2 1)))
        (grilla (fst (projr (JuegoDeLaVida_init mundo_ejemplo 0 3 2 1)))) =
     \<lparr>nrows = 0, ncols = 3, datos = []\<rparr>"
  by (simp add: JuegoDeLaVida_init_def randint2_def nuevo_def sorteo_def leer_def
        mundo_ejemplo_def Let_def)

text \<open>
  Claim C7, amended. Grid creation succeeds for every pair of non-negative dimensions:
  it allocates a new array of that shape (empty when a dimension is 0), every cell 0 or
  1, filled row by row with the next draws of the random source, and leaves the arrays
  already in memory as they were. It fails, with ValueError, exactly when rows < 0 or
  cols < 0.
\<close>

theorem JuegoDeLaVida_init_dimensiones:
  "(0 \<le> f \<and> 0 \<le> c \<longrightarrow>
      (\<exists>juego s'. JuegoDeLaVida_init s f c ps p = Inr (juego, s') \<and>
         filas juego = f \<and> columnas juego = c \<and>
         nrows (leer s' (grilla juego)) = nat f \<and> ncols (leer s' (grilla juego)) = nat c \<and>
         bien_formada (leer s' (grilla juego)) \<and> binaria (leer s' (grilla juego)) \<and>
         (\<forall>i<nat f. \<forall>j<nat c.
            celda (leer s' (grilla juego)) i j = of_bool (azar s (i * nat c + j))) \<and>
         conserva s s' \<and> base (grilla juego) = length (memoria s))) \<and>
   (f < 0 \<or> c < 0 \<longrightarrow> JuegoDeLaVida_init s f c ps p = Inl ValueError)"
proof (intro conjI impI)
  assume "0 \<le> f \<and> 0 \<le> c"
  then have h: "0 \<le> f" "0 \<le> c" by simp_all
  from init_efecto [OF h, of s ps p] obtain juego s' where
    i: "JuegoDeLaVida_init s f c ps p = Inr (juego, s')" "filas juego = f" "columnas juego = c"
      "conserva s s'" "base (grilla juego) = length (memoria s)"
      "leer s' (grilla juego) = sorteo (azar s) (nat f) (nat c)"
    by blast
  have "\<forall>i<nat f. \<forall>j<nat c.
          celda (sorteo (azar s) (nat f) (nat c)) i j = of_bool (azar s (i * nat c + j))"
    by (simp add: celda_sorteo)
  then show "\<exists>juego s'. JuegoDeLaVida_init s f c ps p = Inr (juego, s') \<and>
         filas juego = f \<and> columnas juego = c \<and>
         nrows (leer s' (grilla juego)) = nat f \<and> ncols (leer s' (grilla juego)) = nat c \<and>
         bien_formada (leer s' (grilla juego)) \<and> binaria (leer s' (grilla juego)) \<and>
         (\<forall>i<nat f. \<forall>j<nat c.
            celda (leer s' (grilla juego)) i j = of_bool (azar s (i * nat c + j))) \<and>
         conserva s s' \<and> base (grilla juego) = length (memoria s)"
    using i sorteo_bien_formada [of "azar s" "nat f" "nat c"]
      sorteo_binaria [of "azar s" "nat f" "nat c"]
    by (intro exI [of _ juego] exI [of _ s']) (simp del: nrows_leer ncols_leer)
next
  assume "f < 0 \<or> c < 0"
  then show "JuegoDeLaVida_init s f c ps p = Inl ValueError"
    by (simp add: JuegoDeLaVida_init_def randint2_error)
qed

theorem JuegoDeLaVida_init_dimensiones_witness:
  "(0::int) \<le> 2 \<and> (0::int) \<le> 3 \<and>
   (\<exists>juego s'. JuegoDeLaVida_init mundo_ejemplo 2 3 5 1 = Inr (juego, s') \<and>
      datos (leer s' (grilla juego)) = [[1, 0, 1], [0, 1, 0]] \<and> base (grilla juego) = 1) \<and>
   ((-1::int) < 0 \<or> (3::int) < 0) \<and>
   JuegoDeLaVida_init mundo_ejemplo (- 1) 3 5 1 = Inl ValueError"
proof -
  have e: "JuegoDeLaVida_init mundo_ejemplo (- 1) 3 5 1 = Inl ValueError"
    using JuegoDeLaVida_init_dimensiones [of "- 1" 3 mundo_ejemplo 5 1] by simp
  from JuegoDeLaVida_init_dimensiones [of 2 3 mundo_ejemplo 5 1]
  obtain juego s' where
    i: "JuegoDeLaVida_init mundo_ejemplo 2 3 5 1 = Inr (juego, s')"
      "base (grilla juego) = length (memoria mundo_ejemplo)"
    by auto
  have "datos (leer (snd (projr (JuegoDeLaVida_init mundo_ejemplo 2 3 5 1)))
          (grilla (fst (projr (JuegoDeLaVida_init mundo_ejemplo 2 3 5 1))))) =
        [[1, 0, 1], [0, 1, 0]]"
    by code_simp
  then have "datos (leer s' (grilla juego)) = [[1, 0, 1], [0, 1, 0]]" by (simp add: i(1))
  moreover have "length (memoria mundo_ejemplo) = 1" by (simp add: mundo_ejemplo_def)
  ultimately show ?thesis using e i by auto
qed

section \<open>The warm-up\<close>

text \<open>
  Claim C10. The warm-up run of the worker on the first sub-grid leaves every sub-grid
  unchanged: the worker returns, the buffers that were in memory before it are all
  still there with the same contents (it only allocates), the array it returns is a
  new one, and so every sub-grid of the partition, and the grid itself, reads the same
  after the warm-up as before it.
\<close>

theorem calentamiento_no_modifica:
  assumes "valida s ary" and "array_split ary n = Inr subgrillas"
    and "subgrillas = sg0 # resto"
  shows "\<exists>r s'. worker s sg0 1 = Inr (r, s') \<and> conserva s s' \<and>
           length (memoria s) \<le> base r \<and>
           list_all (\<lambda>sg. leer s' sg = leer s sg) subgrillas \<and>
           leer s' ary = leer s ary"
proof -
  have n: "0 < n"
  proof (rule ccontr)
    assume "\<not> 0 < n"
    then have "array_split ary n = Inl ValueError" by (simp add: array_split_error)
    with assms(2) show False by simp
  qed
  let ?m = "nat n"
  have m: "0 < ?m" using n by simp
  have sp: "subgrillas = map (banda ary ?m) [0..<?m]"
    using assms(2) array_split_Inr_bandas [OF n, of ary] by simp
  have "subgrillas ! 0 = banda ary ?m 0" using m by (simp add: sp)
  then have sg0: "sg0 = banda ary ?m 0" using assms(3) by simp
  have v0: "valida s sg0" unfolding sg0 using assms(1) m m by (rule valida_banda_de)
  from worker_efecto [OF v0, of 1] obtain r s' where
    w0: "worker s sg0 1 = Inr (r, s')" "conserva s s'"
      "(0::int) < 1 \<longrightarrow> length (memoria s) \<le> base r"
    by blast
  have w: "worker s sg0 1 = Inr (r, s')" "conserva s s'" "length (memoria s) \<le> base r"
    using w0 by simp_all
  have b: "base ary < length (memoria s)" using assms(1) by (simp add: valida_def)
  have "leer s' sg = leer s sg" if "sg \<in> set subgrillas" for sg
  proof -
    from that obtain i where "i < ?m" "sg = banda ary ?m i" by (auto simp: sp)
    then have "base sg = base ary" using m by (simp add: banda_campos(1))
    then show ?thesis using w(2) b by (simp add: conserva_leer del: nrows_leer ncols_leer)
  qed
  then have "list_all (\<lambda>sg. leer s' sg = leer s sg) subgrillas" by (simp add: list_all_iff)
  moreover have "leer s' ary = leer s ary" using w(2) b by (rule conserva_leer)
  ultimately show ?thesis using w by blast
qed

theorem calentamiento_no_modifica_witness:
  "valida mundo_ejemplo2 vista_entera \<and>
   array_split vista_entera 2 =
     Inr [\<lparr>base = 0, desde = 0, hasta = 3\<rparr>, \<lparr>base = 0, desde = 3, hasta = 5\<rparr>] \<and>
   (\<exists>r s'. worker mundo_ejemplo2 \<lparr>base = 0, desde = 0, hasta = 3\<rparr> 1 = Inr (r, s') \<and>
      1 \<le> base r \<and>
      datos (leer s' \<lparr>base = 0, desde = 0, hasta = 3\<rparr>) = [[1, 1, 1], [0, 1, 0], [0, 1, 0]] \<and>
      datos (leer s' \<lparr>base = 0, desde = 3, hasta = 5\<rparr>) = [[0, 1, 0], [1, 0, 1]])"
proof -
  have b0: "datos (leer mundo_ejemplo2 \<lparr>base = 0, desde = 0, hasta = 3\<rparr>) =
            [[1, 1, 1], [0, 1, 0], [0, 1, 0]]"
    by (simp add: leer_def mundo_ejemplo2_def)
  have b1: "datos (leer mundo_ejemplo2 \<lparr>base = 0, desde = 3, hasta = 5\<rparr>) =
            [[0, 1, 0], [1, 0, 1]]"
    by (simp add: leer_def mundo_ejemplo2_def)
  have l: "length (memoria mundo_ejemplo2) = 1" by (simp add: mundo_ejemplo2_def)
  from calentamiento_no_modifica [OF valida_entera vista_entera_split refl]
  obtain r s' where
    w: "worker mundo_ejemplo2 \<lparr>base = 0, desde = 0, hasta = 3\<rparr> 1 = Inr (r, s')"
      "length (memoria mundo_ejemplo2) \<le> base r"
      "list_all (\<lambda>sg. leer s' sg = leer mundo_ejemplo2 sg)
         [\<lparr>base = 0, desde = 0, hasta = 3\<rparr>, \<lparr>base = 0, desde = 3, hasta = 5\<rparr>]"
    by blast
  have "1 \<le> base r" using w(2) by (simp only: l)
  moreover have "datos (leer s' \<lparr>base = 0, desde = 0, hasta = 3\<rparr>) =
      [[1, 1, 1], [0, 1, 0], [0, 1, 0]]" using w(3) b0 by simp
  moreover have "datos (leer s' \<lparr>base = 0, desde = 3, hasta = 5\<rparr>) =
      [[0, 1, 0], [1, 0, 1]]" using w(3) b1 by simp
  ultimately have "\<exists>r s'. worker mundo_ejemplo2 \<lparr>base = 0, desde = 0, hasta = 3\<rparr> 1 = Inr (r, s') \<and>
      1 \<le> base r \<and>
      datos (leer s' \<lparr>base = 0, desde = 0, hasta = 3\<rparr>) = [[1, 1, 1], [0, 1, 0], [0, 1, 0]] \<and>
      datos (leer s' \<lparr>base = 0, desde = 3, hasta = 5\<rparr>) = [[0, 1, 0], [1, 0, 1]]"
    using w(1) by blast
  then show ?thesis using valida_entera vista_entera_split by simp
qed


section \<open>Lemmas on the harness\<close>

lemma raiz_cotas: "raiz n * raiz n \<le> n \<and> n < (raiz n + 1) * (raiz n + 1)"
proof (induction n rule: raiz.induct)
  case (1 n)
  show ?case
  proof (cases "n < 2")
    case True
    then have "raiz n = n" by (simp add: raiz.simps)
    moreover have "n = 0 \<or> n = 1" using True by auto
    ultimately show ?thesis by auto
  next
    case False
    let ?q = "n div 4"
    let ?r0 = "raiz ?q"
    from 1 [OF False] have ih: "?r0 * ?r0 \<le> ?q" "?q < (?r0 + 1) * (?r0 + 1)" by simp_all
    have d: "4 * ?q \<le> n" "n < 4 * ?q + 4" by simp_all
    have lo: "(2 * ?r0) * (2 * ?r0) \<le> n"
    proof -
      have "(2 * ?r0) * (2 * ?r0) = 4 * (?r0 * ?r0)" by simp
      also have "\<dots> \<le> 4 * ?q" using ih(1) by simp
      finally show ?thesis using d(1) by simp
    qed
    have hi: "n < (2 * ?r0 + 2) * (2 * ?r0 + 2)"
    proof -
      have "?q + 1 \<le> (?r0 + 1) * (?r0 + 1)" using ih(2) by simp
      then have "4 * (?q + 1) \<le> 4 * ((?r0 + 1) * (?r0 + 1))" by simp
      also have "\<dots> = (2 * ?r0 + 2) * (2 * ?r0 + 2)" by (simp add: algebra_simps)
      finally show ?thesis using d(2) by simp
    qed
    show ?thesis
    proof (cases "(2 * ?r0 + 1) * (2 * ?r0 + 1) \<le> n")
      case True
      then have e: "raiz n = 2 * ?r0 + 1"
        using False by (subst raiz.simps) (simp add: Let_def)
      show ?thesis using True hi by (simp only: e) (simp add: algebra_simps)
    next
      case b: False
      then have e: "raiz n = 2 * ?r0"
        using False by (subst raiz.simps) (simp add: Let_def)
      show ?thesis using b lo by (simp only: e) (simp add: algebra_simps)
    qed
  qed
qed

lemma raiz_floor_sqrt: "int (raiz n) = \<lfloor>sqrt (real n)\<rfloor>"
proof -
  have a: "real (raiz n) \<le> sqrt (real n)"
  proof (rule real_le_rsqrt)
    have "real (raiz n * raiz n) \<le> real n" using raiz_cotas [of n] by (simp only: of_nat_le_iff)
    then show "(real (raiz n))\<^sup>2 \<le> real n" by (simp add: power2_eq_square)
  qed
  have b: "sqrt (real n) < real (raiz n) + 1"
  proof (rule real_less_lsqrt)
    show "0 \<le> real (raiz n) + 1" by simp
    have "real n < real ((raiz n + 1) * (raiz n + 1))"
      using raiz_cotas [of n] by (simp only: of_nat_less_iff)
    then show "real n < (real (raiz n) + 1)\<^sup>2"
      by (simp add: power2_eq_square algebra_simps)
  qed
  have "\<lfloor>sqrt (real n)\<rfloor> = int (raiz n)"
    using a b by (intro floor_unique) simp_all
  then show ?thesis by simp
qed

lemma raiz_mono_cuadrado: "a * a \<le> n \<Longrightarrow> a \<le> raiz n"
proof (rule ccontr)
  assume a: "a * a \<le> n" and "\<not> a \<le> raiz n"
  then have "raiz n + 1 \<le> a" by simp
  then have "(raiz n + 1) * (raiz n + 1) \<le> a * a" by (intro mult_le_mono)
  with a raiz_cotas [of n] show False by simp
qed

lemma raiz_menor: "n < b * b \<Longrightarrow> raiz n < b"
proof (rule ccontr)
  assume n: "n < b * b" and "\<not> raiz n < b"
  then have "b \<le> raiz n" by simp
  then have "b * b \<le> raiz n * raiz n" by (intro mult_le_mono)
  with n raiz_cotas [of n] show False by simp
qed

lemma ancho_lt: "n < 2 ^ ancho n"
proof (induction n rule: ancho.induct)
  case (1 n)
  show ?case
  proof (cases "n = 0")
    case True
    then show ?thesis by simp
  next
    case False
    from 1 [OF False] have "n div 2 < 2 ^ ancho (n div 2)" .
    then have "n < 2 * 2 ^ ancho (n div 2)" by simp
    moreover have "ancho n = Suc (ancho (n div 2))" using False by (subst ancho.simps) simp
    ultimately show ?thesis by simp
  qed
qed

lemma ancho_le: "n < 2 ^ k \<Longrightarrow> ancho n \<le> k"
proof (induction n arbitrary: k rule: ancho.induct)
  case (1 n)
  show ?case
  proof (cases "n = 0")
    case True
    then show ?thesis by (simp add: ancho.simps)
  next
    case False
    then have e: "ancho n = Suc (ancho (n div 2))" by (subst ancho.simps) simp
    from False 1(2) obtain j where k: "k = Suc j" by (cases k) auto
    with 1(2) have "n div 2 < 2 ^ j" by simp
    from 1(1) [OF False this] show ?thesis by (simp add: e k)
  qed
qed

lemma ancho_pos: "0 < n \<Longrightarrow> 0 < ancho n"
  by (subst ancho.simps) simp

lemma cuatro_potencia: "(4::nat) ^ sh = 2 ^ sh * 2 ^ sh"
proof -
  have "(4::nat) ^ sh = (2 * 2) ^ sh" by simp
  also have "\<dots> = 2 ^ sh * 2 ^ sh" by (rule power_mult_distrib)
  finally show ?thesis .
qed

text \<open>Below \<open>2 ^ 52\<close> the truncated float64 root is the integer square root: the exact
  root stays more than half a unit in the last place below the next integer.\<close>

lemma sqrt_float64_exacto:
  assumes "v < 2 ^ 52"
  shows "sqrt_float64 v = raiz v"
proof (cases "v = 0")
  case True
  then show ?thesis by (simp add: sqrt_float64_def raiz.simps)
next
  case False
  define k where "k = raiz v"
  define sh where "sh = 52 - (ancho k - 1)"
  define P :: nat where "P = 2 ^ sh"
  define n where "n = v * 4 ^ sh"
  define r where "r = raiz n"
  define m where "m = (if r * r + r < n then r + 1 else r)"
  have sf: "sqrt_float64 v = m div P"
    using False by (simp add: sqrt_float64_def Let_def k_def sh_def P_def n_def r_def m_def)
  have kv: "k * k \<le> v" "v < (k + 1) * (k + 1)"
    using raiz_cotas [of v] by (simp_all add: k_def)
  have k26: "k < 2 ^ 26"
  proof -
    have "v < (2 ^ 26) * (2 ^ 26 :: nat)" using assms by simp
    then show ?thesis unfolding k_def by (rule raiz_menor)
  qed
  have a26: "ancho k \<le> 26" using k26 by (rule ancho_le)
  have sh27: "27 \<le> sh" using a26 by (simp add: sh_def)
  have "k < 2 ^ ancho k" by (rule ancho_lt)
  also have "(2::nat) ^ ancho k \<le> 2 ^ sh"
    using a26 sh27 by (intro power_increasing) simp_all
  finally have kP: "k + 1 \<le> P" by (simp add: P_def)
  have P0: "0 < P" by (simp add: P_def)
  have nP: "n = v * (P * P)" by (simp add: n_def P_def cuatro_potencia)
  have rn: "r * r \<le> n" "n < (r + 1) * (r + 1)"
    using raiz_cotas [of n] by (simp_all add: r_def)
  have mr: "r \<le> m" "m \<le> r + 1" by (simp_all add: m_def)
  have lower: "k * P \<le> m"
  proof -
    have "(k * P) * (k * P) = (k * k) * (P * P)" by (simp add: algebra_simps)
    also have "\<dots> \<le> v * (P * P)" using kv(1) by (intro mult_le_mono) simp_all
    finally have "(k * P) * (k * P) \<le> n" by (simp add: nP)
    then have "k * P \<le> r" unfolding r_def by (rule raiz_mono_cuadrado)
    then show ?thesis using mr(1) by simp
  qed
  define K where "K = (k + 1) * P"
  have nK: "n + P * P \<le> K * K"
  proof -
    have "v + 1 \<le> (k + 1) * (k + 1)" using kv(2) by simp
    then have "(v + 1) * (P * P) \<le> ((k + 1) * (k + 1)) * (P * P)"
      by (intro mult_le_mono) simp_all
    also have "\<dots> = K * K" by (simp add: K_def algebra_simps)
    finally show ?thesis by (simp add: nP algebra_simps)
  qed
  have rK: "r < K"
  proof -
    have "0 < P * P" using P0 by simp
    then have "n < n + P * P" by simp
    also note nK
    finally have "n < K * K" .
    then show ?thesis unfolding r_def by (rule raiz_menor)
  qed
  have upper: "m < K"
  proof (cases "r * r + r < n")
    case False
    then have "m = r" by (simp add: m_def)
    then show ?thesis using rK by simp
  next
    case True
    then have mm: "m = r + 1" by (simp add: m_def)
    show ?thesis
    proof (rule ccontr)
      assume "\<not> m < K"
      then have e: "r + 1 = K" using rK mm by simp
      have "K * K = (r * r + r) + (r + 1)" by (simp add: e [symmetric] algebra_simps)
      also have "\<dots> < n + (r + 1)" using True by simp
      finally have "K * K < n + K" using e by linarith
      then have "P * P < K" using nK by simp
      moreover have "K \<le> P * P" unfolding K_def using kP by (intro mult_le_mono) simp_all
      ultimately show False by simp
    qed
  qed
  have "m div P = k"
  proof (rule div_nat_eqI)
    show "P * k \<le> m" using lower by (simp add: mult.commute)
    show "m < P * Suc k" using upper by (simp add: K_def mult.commute)
  qed
  then show ?thesis by (simp add: sf k_def)
qed

lemma a_float64_exacto: "x < 2 ^ 53 \<Longrightarrow> a_float64 x = x"
  using ancho_le [of x 53] by (simp add: a_float64_def Let_def)

lemma lado_float64_exacto:
  assumes "0 \<le> x" "x < 2 ^ 52"
  shows "lado_float64 x = raiz (nat x)" "int (lado_float64 x) = \<lfloor>sqrt (real_of_int x)\<rfloor>"
proof -
  have n: "nat x < 2 ^ 52" using assms by (simp add: nat_less_iff)
  then have "nat x < 2 ^ 53" by simp
  then have a: "a_float64 (nat x) = nat x" by (rule a_float64_exacto)
  show e: "lado_float64 x = raiz (nat x)"
    using n by (simp add: lado_float64_def a sqrt_float64_exacto)
  have "real (nat x) = real_of_int x" using assms(1) by simp
  then show "int (lado_float64 x) = \<lfloor>sqrt (real_of_int x)\<rfloor>"
    using raiz_floor_sqrt [of "nat x"] by (simp add: e)
qed

lemma int_sqrt_casos:
  "x < - (2 ^ 63) \<or> 2 ^ 64 \<le> x \<Longrightarrow> int_sqrt x = Inl TypeError"
  "- (2 ^ 63) \<le> x \<Longrightarrow> x < 0 \<Longrightarrow> int_sqrt x = Inl ValueError"
  "0 \<le> x \<Longrightarrow> x < 2 ^ 64 \<Longrightarrow> int_sqrt x = Inr (lado_float64 x)"
  by (simp_all add: int_sqrt_def)

lemma raiz_ejemplos: "raiz 4 = 2" "raiz 8 = 2" "raiz 16 = 4" "raiz 0 = 0"
  by (simp_all add: raiz.simps)

lemma lado_float64_ejemplos:
  "lado_float64 (4 * 1) = 2" "lado_float64 (4 * 2) = 2" "lado_float64 (4 * 4) = 4"
  "lado_float64 (0 * 1) = 0"
  by (simp_all add: lado_float64_exacto(1) raiz_ejemplos)

lemma raiz_grande: "raiz 4503599761588224 = 67108864"
  by (simp add: raiz.simps)

lemma ancho_grande: "ancho 4503599761588224 = 53"
  by (simp add: ancho.simps)

lemma ancho_raiz_grande: "ancho 67108864 = 27"
  by (simp add: ancho.simps)

lemma raiz_escalada: "raiz 20282410208114580231261838639104 = 4503599694479359"
  by (simp add: raiz.simps)

lemma int_sqrt_grande: "int_sqrt 4503599761588224 = Inr 67108865"
  by (simp add: int_sqrt_def lado_float64_def a_float64_def sqrt_float64_def
        ancho_grande raiz_grande ancho_raiz_grande raiz_escalada)

lemma floor_sqrt_grande: "\<lfloor>sqrt (4503599761588224 :: real)\<rfloor> = 67108864"
  using raiz_floor_sqrt [of 4503599761588224] by (simp add: raiz_grande)

lemma worker_Inr: "\<exists>r s'. worker s v g = Inr (r, s')"
proof -
  let ?a = "leer s v"
  from init_efecto [of "int (nrows ?a)" "int (ncols ?a)" s g 1]
  obtain juego s1 where
    i: "JuegoDeLaVida_init s (int (nrows ?a)) (int (ncols ?a)) g 1 = Inr (juego, s1)"
    by auto
  obtain juego2 s2 where w: "worker_bucle (nat g) s1 (juego\<lparr>grilla := v\<rparr>) = (juego2, s2)"
    by (cases "worker_bucle (nat g) s1 (juego\<lparr>grilla := v\<rparr>)")
  have "worker s v g = Inr (grilla juego2, s2)"
    using i w by (simp add: worker_def Let_def del: nrows_leer ncols_leer)
  then show ?thesis by blast
qed

lemma tarea_Inr: "\<exists>a. tarea s sg ps = Inr a"
proof -
  obtain r s1 where n: "nuevo s (leer s sg) = (r, s1)" by (cases "nuevo s (leer s sg)")
  from worker_Inr [of s1 r ps] obtain r' s2 where w: "worker s1 r ps = Inr (r', s2)" by blast
  have "tarea s sg ps = Inr (leer s2 r')" by (simp add: tarea_def n w)
  then show ?thesis by blast
qed

lemma starmap_Inr: "\<exists>rs. starmap s args = Inr rs"
proof (induction args)
  case Nil
  then show ?case by simp
next
  case (Cons a args)
  obtain sg ps where a: "a = (sg, ps)" by (cases a)
  from tarea_Inr [of s sg ps] obtain r where t: "tarea s sg ps = Inr r" by blast
  from Cons obtain rs where r: "starmap s args = Inr rs" by blast
  show ?case by (simp add: a t r)
qed

lemma pool_starmap_Inr: "1 \<le> p \<Longrightarrow> \<exists>rs. pool_starmap s p args = Inr rs"
  using starmap_Inr [of s args] by (simp add: pool_starmap_def)

lemma iteracion_falla:
  assumes "malo c p"
  shows "iteracion s c ps p =
           Inl (if c * p < - (2 ^ 63) \<or> 2 ^ 64 \<le> c * p then TypeError else ValueError)"
proof (cases "c * p < - (2 ^ 63) \<or> 2 ^ 64 \<le> c * p")
  case True
  then have "int_sqrt (c * p) = Inl TypeError" by (rule int_sqrt_casos(1))
  then show ?thesis using True by (simp add: iteracion_def)
next
  case False
  then have r: "- (2 ^ 63) \<le> c * p" "c * p < 2 ^ 64" by simp_all
  show ?thesis
  proof (cases "c * p < 0")
    case True
    with r(1) have "int_sqrt (c * p) = Inl ValueError" by (rule int_sqrt_casos(2))
    then show ?thesis using False by (simp add: iteracion_def)
  next
    case n: False
    then have z: "0 \<le> c * p" by simp
    with assms r(2) have p: "p \<le> 0" by (simp add: malo_def)
    let ?lado = "lado_float64 (c * p)"
    have q: "int_sqrt (c * p) = Inr ?lado" using z r(2) by (rule int_sqrt_casos(3))
    from init_efecto [of "int ?lado" "int ?lado" s ps p]
    obtain juego s1 where
      i: "JuegoDeLaVida_init s (int ?lado) (int ?lado) ps p = Inr (juego, s1)" by auto
    have a: "array_split (grilla juego) p = Inl ValueError" using p by (rule array_split_error)
    show ?thesis using False by (simp add: iteracion_def q i a)
  qed
qed

lemma iteracion_exito:
  assumes "0 < p" "0 \<le> c * p" "c * p < 2 ^ 64"
  shows "\<exists>juego s'. iteracion s c ps p = Inr (reloj s 1 - reloj s 0, juego, s') \<and>
           filas juego = int (lado_float64 (c * p)) \<and>
           columnas juego = int (lado_float64 (c * p)) \<and>
           valida s' (grilla juego) \<and>
           leer s' (grilla juego) = sorteo (azar s) (lado_float64 (c * p)) (lado_float64 (c * p)) \<and>
           conserva s s' \<and>
           salida s' = salida s @ [Procesos p (lado_float64 (c * p)), Tiempo (reloj s 1 - reloj s 0)] \<and>
           reloj s' = (\<lambda>k. reloj s (k + 2))"
proof -
  let ?lado = "lado_float64 (c * p)"
  let ?m = "nat p"
  have q: "int_sqrt (c * p) = Inr ?lado" using assms(2,3) by (rule int_sqrt_casos(3))
  from init_efecto [of "int ?lado" "int ?lado" s ps p]
  obtain juego s1 where
    i: "JuegoDeLaVida_init s (int ?lado) (int ?lado) ps p = Inr (juego, s1)" and
    j: "filas juego = int ?lado" "columnas juego = int ?lado" and
    v1: "valida s1 (grilla juego)" and c1: "conserva s s1" and
    l1: "leer s1 (grilla juego) = sorteo (azar s) (nat (int ?lado)) (nat (int ?lado))" and
    o1: "reloj s1 = reloj s" "salida s1 = salida s"
    by auto
  let ?g = "grilla juego"
  have m: "0 < ?m" using assms(1) by simp
  have u: "[0..<?m] = 0 # [Suc 0..<?m]" using m by (rule upt_conv_Cons)
  have a: "array_split ?g p = Inr (banda ?g ?m 0 # map (banda ?g ?m) [Suc 0..<?m])"
    using array_split_Inr_bandas [OF assms(1), of ?g] by (subst (asm) u) simp
  have v0: "valida s1 (banda ?g ?m 0)" using v1 m m by (rule valida_banda_de)
  from worker_efecto [OF v0, of 1] obtain r s2 where
    w: "worker s1 (banda ?g ?m 0) 1 = Inr (r, s2)" and c2: "conserva s1 s2" and
    o2: "reloj s2 = reloj s1" "salida s2 = salida s1"
    by blast
  let ?s3 = "s2\<lparr>reloj := (\<lambda>k. reloj s2 (Suc k))\<rparr>"
  have t1: "time_time s2 = (reloj s 0, ?s3)" by (simp add: time_time_def o1 o2)
  have "1 \<le> p" using assms(1) by simp
  from pool_starmap_Inr [OF this, of ?s3 "map (\<lambda>sg. (sg, ps)) (banda ?g ?m 0 # map (banda ?g ?m) [Suc 0..<?m])"]
  obtain rs where
    ps: "pool_starmap ?s3 p (map (\<lambda>sg. (sg, ps)) (banda ?g ?m 0 # map (banda ?g ?m) [Suc 0..<?m])) = Inr rs"
    by blast
  let ?s4 = "?s3\<lparr>reloj := (\<lambda>k. reloj ?s3 (Suc k))\<rparr>"
  have t2: "time_time ?s3 = (reloj s 1, ?s4)" by (simp add: time_time_def o1 o2)
  let ?t = "reloj s 1 - reloj s 0"
  let ?s6 = "print_linea (print_linea ?s4 (Procesos p ?lado)) (Tiempo ?t)"
  have r: "iteracion s c ps p = Inr (?t, juego, ?s6)"
    unfolding iteracion_def by (simp only: q i a w t1 t2 ps Let_def sum.case prod.case list.case)
  have mem: "memoria ?s6 = memoria s2" by (simp add: print_linea_def)
  have c: "conserva s s2" using c1 c2 by (rule conserva_trans)
  have c6: "conserva s ?s6" using c by (simp only: conserva_def mem)
  have v2: "valida s2 ?g" using c2 v1 by (rule conserva_valida)
  have v6: "valida ?s6 ?g" using v2 by (simp only: valida_def mem)
  have "leer s2 ?g = leer s1 ?g" using c2 v1 by (simp add: conserva_leer valida_def)
  moreover have "leer ?s6 ?g = leer s2 ?g" by (simp only: leer_def mem)
  ultimately have l6: "leer ?s6 ?g = sorteo (azar s) ?lado ?lado" using l1 by simp
  have sal: "salida ?s6 = salida s @ [Procesos p ?lado, Tiempo ?t]"
    by (simp add: print_linea_def o1 o2)
  have rel: "reloj ?s6 = (\<lambda>k. reloj s (k + 2))"
    by (simp add: print_linea_def o1 o2)
  show ?thesis
    using r j v6 l6 c6 sal rel by blast
qed

lemma bucle_falla:
  "\<exists>p\<in>set lista. malo c p \<Longrightarrow>
   \<exists>e. bucle s c ps lista ts = Inl e \<and> (e = ValueError \<or> e = TypeError) \<and>
     ((\<forall>p\<in>set lista. - (2 ^ 63) \<le> c * p \<and> c * p < 2 ^ 64) \<longrightarrow> e = ValueError)"
proof (induction lista arbitrary: s ts)
  case Nil
  then show ?case by simp
next
  case (Cons p resto)
  show ?case
  proof (cases "malo c p")
    case True
    then have "iteracion s c ps p =
        Inl (if c * p < - (2 ^ 63) \<or> 2 ^ 64 \<le> c * p then TypeError else ValueError)"
      by (rule iteracion_falla)
    then show ?thesis by simp
  next
    case False
    then have g: "0 < p" "0 \<le> c * p" "c * p < 2 ^ 64" by (simp_all add: malo_def)
    from iteracion_exito [OF g, of s ps] obtain juego s1 where
      i: "iteracion s c ps p = Inr (reloj s 1 - reloj s 0, juego, s1)" by blast
    from Cons.prems False have "\<exists>q\<in>set resto. malo c q" by simp
    from Cons.IH [OF this, of s1 "ts @ [reloj s 1 - reloj s 0]"] obtain e where
      e: "bucle s1 c ps resto (ts @ [reloj s 1 - reloj s 0]) = Inl e"
        "e = ValueError \<or> e = TypeError"
        "(\<forall>q\<in>set resto. - (2 ^ 63) \<le> c * q \<and> c * q < 2 ^ 64) \<longrightarrow> e = ValueError"
      by blast
    have "bucle s c ps (p # resto) ts = Inl e" using e(1) by (simp add: i)
    then show ?thesis using e(2,3) by simp
  qed
qed

lemma lineas_Cons:
  "lineas c (p # resto) (t # ts) = [Procesos p (lado_float64 (c * p)), Tiempo t] @ lineas c resto ts"
  by (simp add: lineas_def)

lemma bucle_exito:
  "\<forall>p\<in>set lista. \<not> malo c p \<Longrightarrow>
   \<exists>ts' s'. bucle s c ps lista ts = Inr (ts @ ts', s') \<and> length ts' = length lista \<and>
     salida s' = salida s @ lineas c lista ts' \<and>
     (\<forall>k<length lista. ts' ! k = reloj s (2 * k + 1) - reloj s (2 * k)) \<and>
     conserva s s'"
proof (induction lista arbitrary: s ts)
  case Nil
  show ?case by (simp add: lineas_def)
next
  case (Cons p resto)
  then have g: "0 < p" "0 \<le> c * p" "c * p < 2 ^ 64" and rest: "\<forall>q\<in>set resto. \<not> malo c q"
    by (simp_all add: malo_def)
  let ?t = "reloj s 1 - reloj s 0"
  from iteracion_exito [OF g, of s ps] obtain juego s1 where
    i: "iteracion s c ps p = Inr (?t, juego, s1)" and c1: "conserva s s1" and
    sal: "salida s1 = salida s @ [Procesos p (lado_float64 (c * p)), Tiempo ?t]" and
    rel: "reloj s1 = (\<lambda>k. reloj s (k + 2))"
    by blast
  from Cons.IH [OF rest, of s1 "ts @ [?t]"] obtain ts'' s' where
    b: "bucle s1 c ps resto (ts @ [?t]) = Inr ((ts @ [?t]) @ ts'', s')" and
    len: "length ts'' = length resto" and
    sal': "salida s' = salida s1 @ lineas c resto ts''" and
    nth: "\<forall>k<length resto. ts'' ! k = reloj s1 (2 * k + 1) - reloj s1 (2 * k)" and
    c2: "conserva s1 s'"
    by blast
  have 1: "bucle s c ps (p # resto) ts = Inr (ts @ (?t # ts''), s')"
    using b by (simp add: i)
  have 2: "length (?t # ts'') = length (p # resto)" using len by simp
  have 3: "salida s' = salida s @ lineas c (p # resto) (?t # ts'')"
    by (simp only: sal' sal lineas_Cons append_assoc)
  have 4: "\<forall>k<length (p # resto). (?t # ts'') ! k = reloj s (2 * k + 1) - reloj s (2 * k)"
  proof (intro allI impI)
    fix k assume k: "k < length (p # resto)"
    show "(?t # ts'') ! k = reloj s (2 * k + 1) - reloj s (2 * k)"
    proof (cases k)
      case 0
      then show ?thesis by simp
    next
      case (Suc j)
      with k have "j < length resto" by simp
      with nth have "ts'' ! j = reloj s1 (2 * j + 1) - reloj s1 (2 * j)" by simp
      then show ?thesis by (simp add: Suc rel)
    qed
  qed
  have 5: "conserva s s'" using c1 c2 by (rule conserva_trans)
  show ?case using 1 2 3 4 5 by blast
qed

lemma escalamiento_debil_exito:
  assumes "\<forall>p\<in>set lista. \<not> malo c p"
  shows "\<exists>ts s'. escalamiento_debil s c ps lista = Inr (ts, s') \<and> length ts = length lista \<and>
     salida s' = salida s @ lineas c lista ts \<and>
     (\<forall>k<length lista. ts ! k = reloj s (2 * k + 1) - reloj s (2 * k))"
  using bucle_exito [OF assms, of s ps "[]"] unfolding escalamiento_debil_def
  by (simp only: append_Nil) blast

lemma escalamiento_debil_falla:
  assumes "\<exists>p\<in>set lista. malo c p"
  shows "\<exists>e. escalamiento_debil s c ps lista = Inl e \<and> (e = ValueError \<or> e = TypeError) \<and>
     ((\<forall>p\<in>set lista. - (2 ^ 63) \<le> c * p \<and> c * p < 2 ^ 64) \<longrightarrow> e = ValueError)"
  unfolding escalamiento_debil_def using assms by (rule bucle_falla)

lemma lista_de_tres:
  assumes "length xs = 3"
  shows "xs = [xs ! 0, xs ! 1, xs ! 2]"
proof (rule nth_equalityI)
  show "length xs = length [xs ! 0, xs ! 1, xs ! 2]" using assms by simp
next
  fix i assume "i < length xs"
  then have "i = 0 \<or> i = 1 \<or> i = 2" using assms by auto
  then show "xs ! i = [xs ! 0, xs ! 1, xs ! 2] ! i" by auto
qed

lemma escalamiento_debil_1_2_4:
  "\<exists>ts s'. escalamiento_debil s 4 ps [1, 2, 4] = Inr (ts, s') \<and>
     ts = [reloj s 1 - reloj s 0, reloj s 3 - reloj s 2, reloj s 5 - reloj s 4] \<and>
     salida s' = salida s @ [Procesos 1 2, Tiempo (ts ! 0), Procesos 2 2, Tiempo (ts ! 1),
                             Procesos 4 4, Tiempo (ts ! 2)]"
proof -
  have g: "\<forall>p\<in>set [1, 2, 4::int]. \<not> malo 4 p" by (simp add: malo_def)
  from escalamiento_debil_exito [OF g, of s ps] obtain ts s' where
    e: "escalamiento_debil s 4 ps [1, 2, 4] = Inr (ts, s')" and
    len: "length ts = length [1, 2, 4::int]" and
    sal: "salida s' = salida s @ lineas 4 [1, 2, 4] ts" and
    nth: "\<forall>k<length [1, 2, 4::int]. ts ! k = reloj s (2 * k + 1) - reloj s (2 * k)"
    by blast
  have l3: "length ts = 3" using len by simp
  have n0: "ts ! 0 = reloj s 1 - reloj s 0" using nth by simp
  have "ts ! 1 = reloj s (2 * 1 + 1) - reloj s (2 * 1)" using nth by simp
  then have n1: "ts ! 1 = reloj s 3 - reloj s 2" by simp
  have "ts ! 2 = reloj s (2 * 2 + 1) - reloj s (2 * 2)" using nth by simp
  then have n2: "ts ! 2 = reloj s 5 - reloj s 4" by simp
  have ts: "ts = [ts ! 0, ts ! 1, ts ! 2]" using l3 by (rule lista_de_tres)
  have "lineas 4 [1, 2, 4] [ts ! 0, ts ! 1, ts ! 2] =
        [Procesos 1 2, Tiempo (ts ! 0), Procesos 2 2, Tiempo (ts ! 1),
         Procesos 4 4, Tiempo (ts ! 2)]"
    using lado_float64_ejemplos by (simp add: lineas_def)
  then have "salida s' = salida s @ [Procesos 1 2, Tiempo (ts ! 0), Procesos 2 2, Tiempo (ts ! 1),
                             Procesos 4 4, Tiempo (ts ! 2)]"
    using sal ts by simp
  moreover have "ts = [reloj s 1 - reloj s 0, reloj s 3 - reloj s 2, reloj s 5 - reloj s 4]"
    using ts n0 n1 n2 by simp
  ultimately show ?thesis using e by blast
qed

section \<open>Side lengths and timing samples\<close>

text \<open>
  Claim C5, as stated, says that the side is floor(sqrt(cells_per_worker * p)) for
  every worker count, and that each recorded elapsed time is \<ge> 0. Neither holds
  without a condition. The elapsed time is the difference of two readings of the wall
  clock, \<open>time.time()\<close>, which may be set back between them: with the clock of
  \<open>mundo_reloj_atrasado\<close>, cells_per_worker = 4, generations = 0 and worker counts
  1, 2, 4, the run succeeds and every elapsed time is -1. The side is the truncated
  float64 root: for the product 4503599761588224 it is 67108865, one more than the
  floor of the exact root, 67108864.
\<close>

theorem escalamiento_debil_tiempo_y_lado_counterexample:
  "\<not> isl (escalamiento_debil mundo_reloj_atrasado 4 0 [1, 2, 4]) \<and>
   fst (projr (escalamiento_debil mundo_reloj_atrasado 4 0 [1, 2, 4])) = [- 1, - 1, - 1] \<and>
   int_sqrt 4503599761588224 = Inr 67108865 \<and>
   \<lfloor>sqrt (4503599761588224 :: real)\<rfloor> = 67108864"
proof -
  from escalamiento_debil_1_2_4 [of mundo_reloj_atrasado 0] obtain ts s' where
    e: "escalamiento_debil mundo_reloj_atrasado 4 0 [1, 2, 4] = Inr (ts, s')" and
    ts: "ts = [reloj mundo_reloj_atrasado 1 - reloj mundo_reloj_atrasado 0,
               reloj mundo_reloj_atrasado 3 - reloj mundo_reloj_atrasado 2,
               reloj mundo_reloj_atrasado 5 - reloj mundo_reloj_atrasado 4]"
    by blast
  have "ts = [- 1, - 1, - 1]" by (simp add: ts mundo_reloj_atrasado_def)
  then show ?thesis using int_sqrt_grande floor_sqrt_grande by (simp add: e)
qed

text \<open>
  Claim C5, amended. For every worker count p that the harness processes, the side
  length is int(np.sqrt(cells_per_worker * p)), the truncated float64 root, and the
  grid built is side by side; whenever cells_per_worker * p < 2 ^ 52 that side is
  floor(sqrt(cells_per_worker * p)). A run that succeeds returns one elapsed time per
  worker count, in the order of the worker counts, and prints for each the worker
  count with its side length and the elapsed time; with cells_per_worker = 4 and
  worker counts 1, 2, 4 the run succeeds for every generation count, and the side
  lengths are 2, 2, 4. Each elapsed time is the difference of the two clock readings
  taken around the dispatch, so it is \<ge> 0 whenever the clock is not set back.
\<close>

theorem escalamiento_debil_lados:
  "(iteracion s c ps p = Inr (t, juego, s') \<longrightarrow>
      filas juego = int (lado_float64 (c * p)) \<and> columnas juego = filas juego \<and>
      int (nrows (leer s' (grilla juego))) = filas juego \<and>
      int (ncols (leer s' (grilla juego))) = filas juego \<and>
      bien_formada (leer s' (grilla juego)) \<and>
      (c * p < 2 ^ 52 \<longrightarrow> filas juego = \<lfloor>sqrt (real_of_int (c * p))\<rfloor>)) \<and>
   (escalamiento_debil s c ps lista = Inr (ts, sf) \<longrightarrow>
      length ts = length lista \<and> salida sf = salida s @ lineas c lista ts \<and>
      list_all (\<lambda>q. c * q < 2 ^ 52 \<longrightarrow>
                  int (lado_float64 (c * q)) = \<lfloor>sqrt (real_of_int (c * q))\<rfloor>) lista \<and>
      (\<forall>k<length lista. ts ! k = reloj s (2 * k + 1) - reloj s (2 * k))) \<and>
   (\<exists>us u'. escalamiento_debil s 4 ps [1, 2, 4] = Inr (us, u') \<and> length us = 3 \<and>
      salida u' = salida s @ [Procesos 1 2, Tiempo (us ! 0), Procesos 2 2, Tiempo (us ! 1),
                              Procesos 4 4, Tiempo (us ! 2)] \<and>
      ((\<forall>k. reloj s k \<le> reloj s (Suc k)) \<longrightarrow> list_all (\<lambda>t. 0 \<le> t) us))"
proof (intro conjI impI)
  assume i: "iteracion s c ps p = Inr (t, juego, s')"
  have "\<not> malo c p"
  proof
    assume "malo c p"
    from iteracion_falla [OF this, of s ps] i show False by simp
  qed
  then have g: "0 < p" "0 \<le> c * p" "c * p < 2 ^ 64" by (simp_all add: malo_def)
  let ?lado = "lado_float64 (c * p)"
  from iteracion_exito [OF g, of s ps] i have
    j: "filas juego = int ?lado" "columnas juego = int ?lado" and
    l: "leer s' (grilla juego) = sorteo (azar s) ?lado ?lado"
    by auto
  show "filas juego = int ?lado" by (rule j(1))
  show "columnas juego = filas juego" using j by simp
  show "int (nrows (leer s' (grilla juego))) = filas juego"
    using j(1) by (simp only: l sorteo_forma)
  show "int (ncols (leer s' (grilla juego))) = filas juego"
    using j(1) by (simp only: l sorteo_forma)
  show "bien_formada (leer s' (grilla juego))" by (simp only: l sorteo_bien_formada)
  assume "c * p < 2 ^ 52"
  with g(2) have "int ?lado = \<lfloor>sqrt (real_of_int (c * p))\<rfloor>" by (rule lado_float64_exacto(2))
  then show "filas juego = \<lfloor>sqrt (real_of_int (c * p))\<rfloor>" using j(1) by simp
next
  assume e: "escalamiento_debil s c ps lista = Inr (ts, sf)"
  have g: "\<forall>q\<in>set lista. \<not> malo c q"
  proof (rule ccontr)
    assume "\<not> (\<forall>q\<in>set lista. \<not> malo c q)"
    then have "\<exists>q\<in>set lista. malo c q" by simp
    from escalamiento_debil_falla [OF this, of s ps] e show False by auto
  qed
  from escalamiento_debil_exito [OF g, of s ps] e have
    r: "length ts = length lista" "salida sf = salida s @ lineas c lista ts"
      "\<forall>k<length lista. ts ! k = reloj s (2 * k + 1) - reloj s (2 * k)"
    by auto
  show "length ts = length lista" by (rule r(1))
  show "salida sf = salida s @ lineas c lista ts" by (rule r(2))
  show "\<forall>k<length lista. ts ! k = reloj s (2 * k + 1) - reloj s (2 * k)" by (rule r(3))
  show "list_all (\<lambda>q. c * q < 2 ^ 52 \<longrightarrow>
                  int (lado_float64 (c * q)) = \<lfloor>sqrt (real_of_int (c * q))\<rfloor>) lista"
    unfolding list_all_iff
  proof (intro ballI impI)
    fix q assume q: "q \<in> set lista" and b: "c * q < 2 ^ 52"
    from g q have "\<not> malo c q" by blast
    then have "0 \<le> c * q" by (simp add: malo_def)
    then show "int (lado_float64 (c * q)) = \<lfloor>sqrt (real_of_int (c * q))\<rfloor>"
      using b by (rule lado_float64_exacto(2))
  qed
next
  from escalamiento_debil_1_2_4 [of s ps] obtain us u' where
    e: "escalamiento_debil s 4 ps [1, 2, 4] = Inr (us, u')" and
    us: "us = [reloj s 1 - reloj s 0, reloj s 3 - reloj s 2, reloj s 5 - reloj s 4]" and
    sal: "salida u' = salida s @ [Procesos 1 2, Tiempo (us ! 0), Procesos 2 2, Tiempo (us ! 1),
                             Procesos 4 4, Tiempo (us ! 2)]"
    by blast
  have len: "length us = 3" by (simp add: us)
  have pos: "(\<forall>k. reloj s k \<le> reloj s (Suc k)) \<longrightarrow> list_all (\<lambda>t. 0 \<le> t) us"
  proof
    assume m: "\<forall>k. reloj s k \<le> reloj s (Suc k)"
    have "reloj s 0 \<le> reloj s 1" using m [rule_format, of 0] by simp
    moreover have "reloj s 2 \<le> reloj s 3" using m [rule_format, of 2] by (simp add: eval_nat_numeral)
    moreover have "reloj s 4 \<le> reloj s 5" using m [rule_format, of 4] by (simp add: eval_nat_numeral)
    ultimately show "list_all (\<lambda>t. 0 \<le> t) us" by (simp add: us)
  qed
  show "\<exists>us u'. escalamiento_debil s 4 ps [1, 2, 4] = Inr (us, u') \<and> length us = 3 \<and>
      salida u' = salida s @ [Procesos 1 2, Tiempo (us ! 0), Procesos 2 2, Tiempo (us ! 1),
                              Procesos 4 4, Tiempo (us ! 2)] \<and>
      ((\<forall>k. reloj s k \<le> reloj s (Suc k)) \<longrightarrow> list_all (\<lambda>t. 0 \<le> t) us)"
    using e len sal pos by blast
qed

theorem escalamiento_debil_lados_witness:
  "iteracion mundo_ejemplo 4 0 1 =
     Inr (fst (projr (iteracion mundo_ejemplo 4 0 1)),
          fst (snd (projr (iteracion mundo_ejemplo 4 0 1))),
          snd (snd (projr (iteracion mundo_ejemplo 4 0 1)))) \<and>
   (4 * 1 :: int) < 2 ^ 52 \<and>
   filas (fst (snd (projr (iteracion mundo_ejemplo 4 0 1)))) = 2 \<and>
   \<lfloor>sqrt (real_of_int (4 * 1))\<rfloor> = 2 \<and>
   nrows (leer (snd (snd (projr (iteracion mundo_ejemplo 4 0 1))))
               (grilla (fst (snd (projr (iteracion mundo_ejemplo 4 0 1)))))) = 2 \<and>
   escalamiento_debil mundo_ejemplo 4 0 [1, 2, 4] =
     Inr (fst (projr (escalamiento_debil mundo_ejemplo 4 0 [1, 2, 4])),
          snd (projr (escalamiento_debil mundo_ejemplo 4 0 [1, 2, 4]))) \<and>
   length (fst (projr (escalamiento_debil mundo_ejemplo 4 0 [1, 2, 4]))) = 3 \<and>
   (\<forall>k. reloj mundo_ejemplo k \<le> reloj mundo_ejemplo (Suc k)) \<and>
   list_all (\<lambda>t. 0 \<le> t) (fst (projr (escalamiento_debil mundo_ejemplo 4 0 [1, 2, 4])))"
proof -
  let ?I = "iteracion mundo_ejemplo 4 0 1"
  let ?E = "escalamiento_debil mundo_ejemplo 4 0 [1, 2, 4]"
  have "\<exists>juego s'. ?I = Inr (reloj mundo_ejemplo 1 - reloj mundo_ejemplo 0, juego, s')"
    using iteracion_exito [of 1 4 mundo_ejemplo 0] by auto
  then have hi: "?I = Inr (fst (projr ?I), fst (snd (projr ?I)), snd (snd (projr ?I)))"
    by auto
  have "\<exists>ts s'. ?E = Inr (ts, s')"
    using escalamiento_debil_1_2_4 [of mundo_ejemplo 0] by blast
  then have he: "?E = Inr (fst (projr ?E), snd (projr ?E))" by auto
  have m: "\<forall>k. reloj mundo_ejemplo k \<le> reloj mundo_ejemplo (Suc k)"
    by (simp add: mundo_ejemplo_def)
  have b52: "(4 * 1 :: int) < 2 ^ 52" by simp
  have l2: "int (lado_float64 (4 * 1)) = 2" using lado_float64_ejemplos(1) by simp
  note t = escalamiento_debil_lados [of mundo_ejemplo 4 0 1 "fst (projr ?I)"
      "fst (snd (projr ?I))" "snd (snd (projr ?I))" "[1, 2, 4]" "fst (projr ?E)" "snd (projr ?E)"]
  from t hi have t1:
    "filas (fst (snd (projr ?I))) = int (lado_float64 (4 * 1))"
    "int (nrows (leer (snd (snd (projr ?I))) (grilla (fst (snd (projr ?I)))))) =
       filas (fst (snd (projr ?I)))"
    "(4 * 1 :: int) < 2 ^ 52 \<longrightarrow>
       filas (fst (snd (projr ?I))) = \<lfloor>sqrt (real_of_int (4 * 1))\<rfloor>"
    by blast+
  have a: "filas (fst (snd (projr ?I))) = 2" using t1(1) l2 by simp
  have r: "\<lfloor>sqrt (real_of_int (4 * 1))\<rfloor> = 2" using t1(3) b52 a by simp
  have b: "nrows (leer (snd (snd (projr ?I))) (grilla (fst (snd (projr ?I))))) = 2"
    using t1(2) a by linarith
  from t he have c: "length (fst (projr ?E)) = length [1, 2, 4 :: int]" by blast
  from t obtain us u' where
    u: "?E = Inr (us, u')" "(\<forall>k. reloj mundo_ejemplo k \<le> reloj mundo_ejemplo (Suc k)) \<longrightarrow>
      list_all (\<lambda>t. 0 \<le> t) us" by blast
  have d: "list_all (\<lambda>t. 0 \<le> t) (fst (projr ?E))" using u m by simp
  have c': "length (fst (projr ?E)) = 3" using c by simp
  show ?thesis using hi b52 a r b he c' m d by blast
qed

section \<open>Configurations that make the harness fail\<close>

text \<open>
  Claim C8, as stated: the harness fails if any worker count is \<le> 0, or if
  cells_per_worker \<le> 0, or if generations is negative. It does not fail for
  cells_per_worker = 0 nor for a negative generations: with cells_per_worker = 0,
  generations = -1 and the single worker count 1 the run succeeds, on a 0 x 0 grid and
  with zero steps, and returns one elapsed time.
\<close>

theorem escalamiento_debil_cero_celdas_counterexample:
  "\<not> isl (escalamiento_debil mundo_ejemplo 0 (- 1) [1]) \<and>
   fst (projr (escalamiento_debil mundo_ejemplo 0 (- 1) [1])) = [1] \<and>
   salida (snd (projr (escalamiento_debil mundo_ejemplo 0 (- 1) [1]))) =
     [Procesos 1 0, Tiempo 1]"
proof -
  have g: "\<forall>p\<in>set [1::int]. \<not> malo 0 p" by (simp add: malo_def)
  from escalamiento_debil_exito [OF g, of mundo_ejemplo "- 1"] obtain ts s' where
    e: "escalamiento_debil mundo_ejemplo 0 (- 1) [1] = Inr (ts, s')" and
    len: "length ts = length [1::int]" and
    sal: "salida s' = salida mundo_ejemplo @ lineas 0 [1] ts" and
    nth: "\<forall>k<length [1::int]. ts ! k = reloj mundo_ejemplo (2 * k + 1) - reloj mundo_ejemplo (2 * k)"
    by blast
  have "ts ! 0 = 1" using nth by (simp add: mundo_ejemplo_def)
  moreover have "length ts = 1" using len by simp
  ultimately have ts: "ts = [1]" by (cases ts) simp_all
  have "salida s' = [Procesos 1 0, Tiempo 1]"
    using lado_float64_ejemplos(4) by (simp add: sal ts lineas_def mundo_ejemplo_def)
  then show ?thesis by (simp add: e ts)
qed

text \<open>
  Claim C8, amended. The harness validates nothing itself (there is no InvalidConfig);
  it fails only through the library calls it makes, with ValueError or TypeError. It
  fails whenever a configured worker count is \<le> 0, whenever cells_per_worker < 0 and
  there is a worker count, and whenever a product cells_per_worker * p is negative or
  at least 2 ^ 64 (where \<open>np.sqrt\<close> raises TypeError); the error is ValueError when
  every product lies between - 2 ^ 63 and 2 ^ 64 - 1. It does not fail for
  cells_per_worker = 0 with positive worker counts, nor, more generally, when
  cells_per_worker \<ge> 0, every worker count is positive and every product is below
  2 ^ 64. The generation count never makes it fail: a run fails for one generation
  count exactly when it fails for every other, and a negative count runs zero steps.
\<close>

theorem escalamiento_debil_falla_si:
  "((\<exists>p\<in>set lista. p \<le> 0) \<longrightarrow> isl (escalamiento_debil s c ps lista)) \<and>
   (c < 0 \<and> lista \<noteq> [] \<longrightarrow> isl (escalamiento_debil s c ps lista)) \<and>
   ((\<exists>p\<in>set lista. c * p < 0 \<or> 2 ^ 64 \<le> c * p) \<longrightarrow>
      isl (escalamiento_debil s c ps lista)) \<and>
   (isl (escalamiento_debil s c ps lista) \<longrightarrow>
      escalamiento_debil s c ps lista = Inl ValueError \<or>
      escalamiento_debil s c ps lista = Inl TypeError) \<and>
   (isl (escalamiento_debil s c ps lista) \<and>
    (\<forall>p\<in>set lista. - (2 ^ 63) \<le> c * p \<and> c * p < 2 ^ 64) \<longrightarrow>
      escalamiento_debil s c ps lista = Inl ValueError) \<and>
   (c = 0 \<and> (\<forall>p\<in>set lista. 0 < p) \<longrightarrow> \<not> isl (escalamiento_debil s c ps lista)) \<and>
   (0 \<le> c \<and> (\<forall>p\<in>set lista. 0 < p \<and> c * p < 2 ^ 64) \<longrightarrow>
      \<not> isl (escalamiento_debil s c ps lista)) \<and>
   (isl (escalamiento_debil s c ps lista) \<longleftrightarrow> isl (escalamiento_debil s c ps' lista))"
proof -
  let ?E = "escalamiento_debil s c ps lista"
  let ?bad = "\<exists>p\<in>set lista. malo c p"
  have f: "\<exists>e. escalamiento_debil s c g lista = Inl e \<and> (e = ValueError \<or> e = TypeError) \<and>
     ((\<forall>p\<in>set lista. - (2 ^ 63) \<le> c * p \<and> c * p < 2 ^ 64) \<longrightarrow> e = ValueError)"
    if ?bad for g
    using that by (rule escalamiento_debil_falla)
  have ok: "\<not> isl (escalamiento_debil s c g lista)" if "\<not> ?bad" for g
  proof -
    from that have "\<forall>p\<in>set lista. \<not> malo c p" by simp
    from escalamiento_debil_exito [OF this, of s g] obtain ts s' where
      "escalamiento_debil s c g lista = Inr (ts, s')" by blast
    then show ?thesis by simp
  qed
  have iff: "isl (escalamiento_debil s c g lista) \<longleftrightarrow> ?bad" for g
  proof
    assume "isl (escalamiento_debil s c g lista)"
    then show ?bad using ok [of g] by blast
  next
    assume ?bad
    from f [OF this, of g] show "isl (escalamiento_debil s c g lista)" by auto
  qed
  have 1: "(\<exists>p\<in>set lista. p \<le> 0) \<longrightarrow> isl ?E"
  proof
    assume "\<exists>p\<in>set lista. p \<le> 0"
    then have ?bad by (auto simp: malo_def)
    then show "isl ?E" by (simp only: iff)
  qed
  have 2: "c < 0 \<and> lista \<noteq> [] \<longrightarrow> isl ?E"
  proof
    assume a: "c < 0 \<and> lista \<noteq> []"
    then obtain p where p: "p \<in> set lista" by (cases lista) auto
    have "malo c p"
    proof (cases "p \<le> 0")
      case True
      then show ?thesis by (simp add: malo_def)
    next
      case False
      then have "0 < p" by simp
      then have "c * p < 0" using a by (simp add: mult_neg_pos)
      then show ?thesis by (simp add: malo_def)
    qed
    with p have ?bad by blast
    then show "isl ?E" by (simp only: iff)
  qed
  have 3: "(\<exists>p\<in>set lista. c * p < 0 \<or> 2 ^ 64 \<le> c * p) \<longrightarrow> isl ?E"
  proof
    assume "\<exists>p\<in>set lista. c * p < 0 \<or> 2 ^ 64 \<le> c * p"
    then have ?bad by (auto simp: malo_def)
    then show "isl ?E" by (simp only: iff)
  qed
  have 4: "isl ?E \<longrightarrow> ?E = Inl ValueError \<or> ?E = Inl TypeError"
  proof
    assume "isl ?E"
    then have ?bad by (simp only: iff)
    from f [OF this, of ps] show "?E = Inl ValueError \<or> ?E = Inl TypeError" by auto
  qed
  have 5: "isl ?E \<and> (\<forall>p\<in>set lista. - (2 ^ 63) \<le> c * p \<and> c * p < 2 ^ 64) \<longrightarrow>
      ?E = Inl ValueError"
  proof
    assume a: "isl ?E \<and> (\<forall>p\<in>set lista. - (2 ^ 63) \<le> c * p \<and> c * p < 2 ^ 64)"
    then have ?bad by (simp only: iff)
    from f [OF this, of ps] a show "?E = Inl ValueError" by auto
  qed
  have 7: "0 \<le> c \<and> (\<forall>p\<in>set lista. 0 < p \<and> c * p < 2 ^ 64) \<longrightarrow> \<not> isl ?E"
  proof
    assume a: "0 \<le> c \<and> (\<forall>p\<in>set lista. 0 < p \<and> c * p < 2 ^ 64)"
    have "\<not> ?bad"
    proof
      assume ?bad
      then obtain p where p: "p \<in> set lista" "malo c p" by blast
      with a have q: "0 < p" "c * p < 2 ^ 64" by simp_all
      then have "0 \<le> c * p" using a by simp
      with p(2) q show False by (simp add: malo_def)
    qed
    then show "\<not> isl ?E" by (rule ok)
  qed
  have 6: "c = 0 \<and> (\<forall>p\<in>set lista. 0 < p) \<longrightarrow> \<not> isl ?E"
  proof
    assume a: "c = 0 \<and> (\<forall>p\<in>set lista. 0 < p)"
    then have "0 \<le> c \<and> (\<forall>p\<in>set lista. 0 < p \<and> c * p < 2 ^ 64)" by simp
    with 7 show "\<not> isl ?E" by blast
  qed
  have 8: "isl ?E \<longleftrightarrow> isl (escalamiento_debil s c ps' lista)"
    by (simp only: iff)
  show ?thesis
    by (intro conjI) (rule 1 2 3 4 5 6 7 8)+
qed

theorem escalamiento_debil_falla_si_witness:
  "(0::int) \<in> set [2, 0] \<and> (0::int) \<le> 0 \<and>
   escalamiento_debil mundo_ejemplo 4 3 [2, 0] = Inl ValueError \<and>
   (- 1::int) < 0 \<and> [1::int] \<noteq> [] \<and> isl (escalamiento_debil mundo_ejemplo (- 1) 3 [1]) \<and>
   (2::int) ^ 64 \<le> 2 ^ 64 * 1 \<and> isl (escalamiento_debil mundo_ejemplo (2 ^ 64) 0 [1]) \<and>
   (0::int) < 1 \<and> \<not> isl (escalamiento_debil mundo_ejemplo 0 (- 1) [1]) \<and>
   (0::int) \<le> 4 \<and> (4 * 1 :: int) < 2 ^ 64 \<and>
   \<not> isl (escalamiento_debil mundo_ejemplo 4 (- 5) [1])"
proof -
  note t1 = escalamiento_debil_falla_si [of "[2, 0]" mundo_ejemplo 4 3 3]
  have i1: "isl (escalamiento_debil mundo_ejemplo 4 3 [2, 0])" using t1 by simp
  have r1: "\<forall>p\<in>set [2, 0 :: int]. - (2 ^ 63) \<le> 4 * p \<and> 4 * p < 2 ^ 64" by simp
  have a: "escalamiento_debil mundo_ejemplo 4 3 [2, 0] = Inl ValueError"
    using t1 i1 r1 by blast
  have b: "isl (escalamiento_debil mundo_ejemplo (- 1) 3 [1])"
    using escalamiento_debil_falla_si [of "[1]" mundo_ejemplo "- 1" 3 3] by simp
  have c: "isl (escalamiento_debil mundo_ejemplo (2 ^ 64) 0 [1])"
    using escalamiento_debil_falla_si [of "[1]" mundo_ejemplo "2 ^ 64" 0 0] by simp
  have d: "\<not> isl (escalamiento_debil mundo_ejemplo 0 (- 1) [1])"
    using escalamiento_debil_falla_si [of "[1]" mundo_ejemplo 0 "- 1" 0] by simp
  have e: "\<not> isl (escalamiento_debil mundo_ejemplo 4 (- 5) [1])"
    using escalamiento_debil_falla_si [of "[1]" mundo_ejemplo 4 "- 5" 0] by simp
  show ?thesis using a b c d e by simp
qed

end
